theory Spec2Isabelle
  imports Main "HOL-Library.Word"
begin

unbundle bit_operations_syntax

section \<open>Bytes, Python values and exceptions\<close>

text \<open>
  The script \<^verbatim>\<open>create_icons.py\<close> works on Python \<^verbatim>\<open>bytes\<close> objects and unbounded
  Python integers. A byte is an 8-bit word, a \<^verbatim>\<open>bytes\<close> object a list of them, a Python
  \<^verbatim>\<open>int\<close> a HOL \<open>int\<close>. An exception is a value of \<open>pyerror\<close>; a computation that
  may raise returns \<open>pyerror + 'a\<close> with \<open>Inl\<close> for the exception.
\<close>

type_synonym byte = "8 word"
type_synonym bytes = "byte list"

datatype pyerror = TypeError | MemoryError | StructError | OSError

text \<open>
  Python is dynamically typed: \<^verbatim>\<open>create_png\<close> can be called with any object as
  \<^verbatim>\<open>size\<close>. \<open>PyInt n\<close> is an integer object; \<open>PyNonInt\<close> stands for every object
  that cannot be used as an integer (a float, a string, \<^verbatim>\<open>None\<close>, ...): all of them make
  \<^verbatim>\<open>range(height)\<close> raise \<^verbatim>\<open>TypeError\<close>.
\<close>

datatype pyarg = PyInt int | PyNonInt

definition ascii :: "string \<Rightarrow> bytes" where
  "ascii s = map (\<lambda>c. word_of_nat (of_char c)) s"

text \<open>\<^verbatim>\<open>range(n)\<close>: the integers from 0 to n - 1, none when n is not positive.\<close>

definition py_range :: "int \<Rightarrow> int list" where
  "py_range n = [0..n - 1]"

text \<open>\<^verbatim>\<open>str(n)\<close> for an integer, as the f-string of the completion line formats it.\<close>

fun str_nat :: "nat \<Rightarrow> string" where
  "str_nat n =
     (if n < 10 then [''0123456789'' ! n]
      else str_nat (n div 10) @ [''0123456789'' ! (n mod 10)])"

declare str_nat.simps [simp del]

definition str_int :: "int \<Rightarrow> string" where
  "str_int n = (if n < 0 then CHR ''-'' # str_nat (nat (- n)) else str_nat (nat n))"

section \<open>The library calls: \<^verbatim>\<open>struct.pack\<close>, \<^verbatim>\<open>zlib.crc32\<close>, \<^verbatim>\<open>zlib.compress\<close>\<close>

text \<open>
  \<^verbatim>\<open>struct.pack('>...', v1, ...)\<close> with the two format characters the script uses:
  \<^verbatim>\<open>I\<close> (unsigned 32-bit) and \<^verbatim>\<open>B\<close> (unsigned 8-bit), big-endian. A value outside the
  field's range, or a wrong number of values, raises \<^verbatim>\<open>struct.error\<close>.
\<close>

datatype fmt = FmtI | FmtB

definition be_bytes :: "nat \<Rightarrow> int \<Rightarrow> bytes" where
  "be_bytes n v = map (\<lambda>i. word_of_int (v div 256 ^ i)) (rev [0..<n])"

fun pack_field :: "fmt \<Rightarrow> int \<Rightarrow> pyerror + bytes" where
  "pack_field FmtI v = (if 0 \<le> v \<and> v \<le> 4294967295 then Inr (be_bytes 4 v) else Inl StructError)"
| "pack_field FmtB v = (if 0 \<le> v \<and> v \<le> 255 then Inr (be_bytes 1 v) else Inl StructError)"

fun struct_pack :: "fmt list \<Rightarrow> int list \<Rightarrow> pyerror + bytes" where
  "struct_pack [] [] = Inr []"
| "struct_pack (f # fs) (v # vs) =
     (case pack_field f v of
        Inl e \<Rightarrow> Inl e
      | Inr b \<Rightarrow> (case struct_pack fs vs of Inl e \<Rightarrow> Inl e | Inr bs \<Rightarrow> Inr (b @ bs)))"
| "struct_pack _ _ = Inl StructError"

text \<open>
  \<^verbatim>\<open>zlib.crc32(data)\<close>: the standard CRC-32 (reflected polynomial \<^verbatim>\<open>0xEDB88320\<close>,
  initial value and final exclusive-or \<^verbatim>\<open>0xFFFFFFFF\<close>), computed bit by bit on Python
  integers; the result is in the range \<open>0 .. 2^32 - 1\<close>.
\<close>

definition crc_shift :: "int \<Rightarrow> int" where
  "crc_shift c = (if odd c then (c div 2) XOR 0xEDB88320 else c div 2)"

definition crc_update :: "int \<Rightarrow> byte \<Rightarrow> int" where
  "crc_update c b = (crc_shift ^^ 8) (c XOR uint b)"

definition crc32 :: "bytes \<Rightarrow> int" where
  "crc32 data = foldl crc_update 0xFFFFFFFF data XOR 0xFFFFFFFF"

text \<open>
  \<^verbatim>\<open>zlib.compress(data, level)\<close> is a parameter of the model: a function from the data
  and the level to the compressed stream. What the library promises is that its
  decompressor gives the data back.
\<close>

type_synonym compressor = "bytes \<Rightarrow> int \<Rightarrow> bytes"
type_synonym decompressor = "bytes \<Rightarrow> bytes option"

definition zlib_lossless :: "compressor \<Rightarrow> decompressor \<Rightarrow> bool" where
  "zlib_lossless zc zd \<longleftrightarrow> (\<forall>data level. zd (zc data level) = Some data)"

section \<open>The file system and the standard output\<close>

text \<open>
  The state the script acts on: the files (a map from names to contents), the names at
  which \<^verbatim>\<open>open(name, 'wb')\<close> fails, and the trace of what the script has opened,
  written and printed so far, in order. Of the ways the file system can fail, only a
  failing \<^verbatim>\<open>open\<close> is modelled: \<open>write_bytes\<close> and \<open>print_line\<close> below are the
  successful write and the successful print.
\<close>

datatype event = FileOpen string | FileWrite string bytes | Print string

record world =
  files :: "string \<rightharpoonup> bytes"
  unwritable :: "string set"
  trace :: "event list"

text \<open>\<^verbatim>\<open>open(filename, 'wb')\<close>: raises \<^verbatim>\<open>OSError\<close>, or creates the file or truncates it.\<close>

definition open_wb :: "string \<Rightarrow> world \<Rightarrow> (pyerror + unit) \<times> world" where
  "open_wb filename w =
     (if filename \<in> unwritable w then (Inl OSError, w)
      else (Inr (), w\<lparr>files := (files w)(filename \<mapsto> []),
                      trace := trace w @ [FileOpen filename]\<rparr>))"

text \<open>\<^verbatim>\<open>f.write(data)\<close> and the close at the end of the \<^verbatim>\<open>with\<close> block.\<close>

definition write_bytes :: "string \<Rightarrow> bytes \<Rightarrow> world \<Rightarrow> world" where
  "write_bytes filename data w =
     w\<lparr>files := (files w)(filename \<mapsto>
          (case files w filename of None \<Rightarrow> data | Some old \<Rightarrow> old @ data)),
       trace := trace w @ [FileWrite filename data]\<rparr>"

definition print_line :: "string \<Rightarrow> world \<Rightarrow> world" where
  "print_line s w = w\<lparr>trace := trace w @ [Print s]\<rparr>"

fun stdout :: "event list \<Rightarrow> string list" where
  "stdout [] = []"
| "stdout (Print s # es) = s # stdout es"
| "stdout (FileWrite f d # es) = stdout es"
| "stdout (FileOpen f # es) = stdout es"

fun writes :: "event list \<Rightarrow> (string \<times> bytes) list" where
  "writes [] = []"
| "writes (Print s # es) = writes es"
| "writes (FileWrite f d # es) = (f, d) # writes es"
| "writes (FileOpen f # es) = writes es"

section \<open>\<^verbatim>\<open>create_png\<close>\<close>

text \<open>
  Lines 16 to 20: the raw image data. The inner loop appends the four bytes of the pixel
  once per column, the outer loop a zero filter byte and then the row, once per row.
\<close>

definition pixel :: bytes where
  "pixel = [124, 58, 237, 255]"

definition row_loop :: "int \<Rightarrow> bytes \<Rightarrow> bytes" where
  "row_loop width raw = fold (\<lambda>x acc. acc @ pixel) (py_range width) raw"

definition raw_data :: "int \<Rightarrow> bytes" where
  "raw_data sz =
     (let width = sz; height = sz
      in fold (\<lambda>y acc. row_loop width (acc @ [0])) (py_range height) [])"

text \<open>
  A \<^verbatim>\<open>bytes\<close> object holds at most \<^verbatim>\<open>sys.maxsize\<close> bytes (\<open>2^63 - 1\<close> on a 64-bit
  Python): the append that would take \<^verbatim>\<open>raw_data\<close> beyond that raises \<^verbatim>\<open>MemoryError\<close>.
  The appends only lengthen the object, so the loop raises exactly when the finished
  raster would be too long. A machine runs out of memory well before this limit: the
  model has the limit only, and what is proved of a large size takes the success of the
  call as a hypothesis.
\<close>

definition sys_maxsize :: int where
  "sys_maxsize = 9223372036854775807"

definition raster_fits :: "int \<Rightarrow> bool" where
  "raster_fits sz \<longleftrightarrow> int (length (raw_data sz)) \<le> sys_maxsize"

definition raster :: "int \<Rightarrow> pyerror + bytes" where
  "raster sz = (if raster_fits sz then Inr (raw_data sz) else Inl MemoryError)"

text \<open>Line 23: \<^verbatim>\<open>compressed = zlib.compress(raw_data, 9)\<close>.\<close>

definition compressed :: "compressor \<Rightarrow> int \<Rightarrow> bytes" where
  "compressed zc sz = zc (raw_data sz) 9"

text \<open>Line 26: the signature \<^verbatim>\<open>b'\x89PNG\r\n\x1a\n'\<close>.\<close>

definition signature :: bytes where
  "signature = [0x89, 0x50, 0x4E, 0x47, 0x0D, 0x0A, 0x1A, 0x0A]"

text \<open>Lines 29 to 31: the IHDR chunk. Its length field is the literal 13.\<close>

definition ihdr_data :: "int \<Rightarrow> pyerror + bytes" where
  "ihdr_data sz =
     (let width = sz; height = sz
      in struct_pack [FmtI, FmtI, FmtB, FmtB, FmtB, FmtB, FmtB] [width, height, 8, 6, 0, 0, 0])"

definition ihdr :: "int \<Rightarrow> pyerror + bytes" where
  "ihdr sz =
     (case ihdr_data sz of
        Inl e \<Rightarrow> Inl e
      | Inr d \<Rightarrow>
          (let ihdr_crc = crc32 (ascii ''IHDR'' @ d) AND 0xffffffff
           in case struct_pack [FmtI] [13] of
                Inl e \<Rightarrow> Inl e
              | Inr len \<Rightarrow>
                  (case struct_pack [FmtI] [ihdr_crc] of
                     Inl e \<Rightarrow> Inl e
                   | Inr crc \<Rightarrow> Inr (len @ ascii ''IHDR'' @ d @ crc))))"

text \<open>Lines 34 and 35: the IDAT chunk. Its length field is \<^verbatim>\<open>len(compressed)\<close>.\<close>

definition idat :: "compressor \<Rightarrow> int \<Rightarrow> pyerror + bytes" where
  "idat zc sz =
     (let c = compressed zc sz;
          idat_crc = crc32 (ascii ''IDAT'' @ c) AND 0xffffffff
      in case struct_pack [FmtI] [int (length c)] of
           Inl e \<Rightarrow> Inl e
         | Inr len \<Rightarrow>
             (case struct_pack [FmtI] [idat_crc] of
                Inl e \<Rightarrow> Inl e
              | Inr crc \<Rightarrow> Inr (len @ ascii ''IDAT'' @ c @ crc)))"

text \<open>Lines 38 and 39: the IEND chunk, with no payload.\<close>

definition iend :: "pyerror + bytes" where
  "iend =
     (let iend_crc = crc32 (ascii ''IEND'') AND 0xffffffff
      in case struct_pack [FmtI] [0] of
           Inl e \<Rightarrow> Inl e
         | Inr len \<Rightarrow>
             (case struct_pack [FmtI] [iend_crc] of
                Inl e \<Rightarrow> Inl e
              | Inr crc \<Rightarrow> Inr (len @ ascii ''IEND'' @ crc)))"

text \<open>
  Lines 10 to 39 and the argument of \<^verbatim>\<open>f.write\<close>: everything \<^verbatim>\<open>create_png\<close> computes
  before it opens the file, in the order of the source: the raster (which is
  \<open>raw_data sz\<close> when the loop comes through, and is what \<open>compressed\<close> reads), then
  the three chunks.
\<close>

definition png_bytes :: "compressor \<Rightarrow> int \<Rightarrow> pyerror + bytes" where
  "png_bytes zc sz =
     (case raster sz of
        Inl e \<Rightarrow> Inl e
      | Inr raw \<Rightarrow>
          (case ihdr sz of
             Inl e \<Rightarrow> Inl e
           | Inr h \<Rightarrow>
               (case idat zc sz of
                  Inl e \<Rightarrow> Inl e
                | Inr d \<Rightarrow>
                    (case iend of
                       Inl e \<Rightarrow> Inl e
                     | Inr t \<Rightarrow> Inr (signature @ h @ d @ t)))))"

text \<open>Line 45: the completion line \<^verbatim>\<open>f"Created {filename} ({size}x{size})"\<close>.\<close>

definition created_msg :: "string \<Rightarrow> int \<Rightarrow> string" where
  "created_msg filename sz =
     ''Created '' @ filename @ '' ('' @ str_int sz @ ''x'' @ str_int sz @ '')''"

text \<open>
  The whole function. The exceptions of the model are those raised before the file is
  opened and the one raised by \<^verbatim>\<open>open\<close>; none of them has touched the file system.
  A failure of \<^verbatim>\<open>f.write\<close>, of the close at the end of the \<^verbatim>\<open>with\<close> block or of
  \<^verbatim>\<open>print\<close> is not modelled: after \<^verbatim>\<open>open\<close> the model follows the run in which they
  succeed, and says nothing of a run in which one of them raises.
\<close>

definition create_png :: "compressor \<Rightarrow> pyarg \<Rightarrow> string \<Rightarrow> world \<Rightarrow> (pyerror + unit) \<times> world" where
  "create_png zc sz filename w =
     (case sz of
        PyNonInt \<Rightarrow> (Inl TypeError, w)
      | PyInt n \<Rightarrow>
          (case png_bytes zc n of
             Inl e \<Rightarrow> (Inl e, w)
           | Inr data \<Rightarrow>
               (case open_wb filename w of
                  (Inl e, w') \<Rightarrow> (Inl e, w')
                | (Inr u, w') \<Rightarrow>
                    (Inr (), print_line (created_msg filename n) (write_bytes filename data w')))))"

section \<open>The script\<close>

text \<open>Lines 48 to 57: the list of sizes, the loop over it and the final line.\<close>

definition sizes :: "(int \<times> string) list" where
  "sizes = [(32, ''32x32.png''), (128, ''128x128.png''), (256, ''128x128@2x.png''), (512, ''icon.png'')]"

fun create_all :: "compressor \<Rightarrow> (int \<times> string) list \<Rightarrow> world \<Rightarrow> (pyerror + unit) \<times> world" where
  "create_all zc [] w = (Inr (), w)"
| "create_all zc ((sz, name) # rest) w =
     (case create_png zc (PyInt sz) name w of
        (Inl e, w') \<Rightarrow> (Inl e, w')
      | (Inr u, w') \<Rightarrow> create_all zc rest w')"

definition script :: "compressor \<Rightarrow> world \<Rightarrow> (pyerror + unit) \<times> world" where
  "script zc w =
     (case create_all zc sizes w of
        (Inl e, w') \<Rightarrow> (Inl e, w')
      | (Inr u, w') \<Rightarrow> (Inr (), print_line ''Icons created successfully!'' w'))"

section \<open>Reading the file back\<close>

text \<open>
  The format the file has to follow, written from its public description and not from
  the script: how a reader cuts the file into chunks, checks their checksums, reads the
  header fields and turns the decompressed data into pixels.
\<close>

definition be_int :: "bytes \<Rightarrow> int" where
  "be_int bs = foldl (\<lambda>acc b. acc * 256 + uint b) 0 bs"

text \<open>
  A chunk as the format describes it: the length of the payload (4 bytes, big-endian),
  the type tag (4 ASCII bytes), the payload, and the CRC-32 of tag and payload (4 bytes,
  big-endian).
\<close>

definition chunk :: "string \<Rightarrow> bytes \<Rightarrow> bytes" where
  "chunk tag payload =
     be_bytes 4 (int (length payload)) @ ascii tag @ payload
       @ be_bytes 4 (crc32 (ascii tag @ payload))"

record raw_chunk =
  ck_length :: int
  ck_type :: bytes
  ck_data :: bytes
  ck_crc :: int

definition crc_ok :: "raw_chunk \<Rightarrow> bool" where
  "crc_ok c \<longleftrightarrow> ck_crc c = crc32 (ck_type c @ ck_data c)"

function read_chunks :: "bytes \<Rightarrow> raw_chunk list option" where
  "read_chunks bs =
     (if bs = [] then Some []
      else if length bs < 12 then None
      else if length bs < 12 + nat (be_int (take 4 bs)) then None
      else (case read_chunks (drop (12 + nat (be_int (take 4 bs))) bs) of
              None \<Rightarrow> None
            | Some cs \<Rightarrow>
                Some (\<lparr>ck_length = be_int (take 4 bs),
                       ck_type = take 4 (drop 4 bs),
                       ck_data = take (nat (be_int (take 4 bs))) (drop 8 bs),
                       ck_crc = be_int (take 4 (drop (8 + nat (be_int (take 4 bs))) bs))\<rparr> # cs)))"
  by pat_completeness auto
termination
  by (relation "measure length") auto

declare read_chunks.simps [simp del]

definition read_png :: "bytes \<Rightarrow> raw_chunk list option" where
  "read_png bs = (if take 8 bs = signature then read_chunks (drop 8 bs) else None)"

record header =
  hd_width :: int
  hd_height :: int
  hd_bit_depth :: int
  hd_color_type :: int
  hd_compression :: int
  hd_filter :: int
  hd_interlace :: int

definition read_header :: "bytes \<Rightarrow> header option" where
  "read_header d =
     (if length d \<noteq> 13 then None
      else Some \<lparr>hd_width = be_int (take 4 d), hd_height = be_int (take 4 (drop 4 d)),
                 hd_bit_depth = uint (d ! 8), hd_color_type = uint (d ! 9),
                 hd_compression = uint (d ! 10), hd_filter = uint (d ! 11),
                 hd_interlace = uint (d ! 12)\<rparr>)"

text \<open>
  The raster of an 8-bit RGBA image: each scanline is a filter-type byte and 4 bytes per
  pixel; the five filter types of the format are undone byte by byte from the byte 4
  places to the left (a), the byte above (b) and the byte above and to the left (c).
\<close>

type_synonym rgba = "byte \<times> byte \<times> byte \<times> byte"

definition paeth :: "byte \<Rightarrow> byte \<Rightarrow> byte \<Rightarrow> byte" where
  "paeth a b c =
     (let p = uint a + uint b - uint c;
          pa = \<bar>p - uint a\<bar>; pb = \<bar>p - uint b\<bar>; pc = \<bar>p - uint c\<bar>
      in if pa \<le> pb \<and> pa \<le> pc then a else if pb \<le> pc then b else c)"

definition predictor :: "nat \<Rightarrow> byte \<Rightarrow> byte \<Rightarrow> byte \<Rightarrow> byte option" where
  "predictor ft a b c =
     (if ft = 0 then Some 0
      else if ft = 1 then Some a
      else if ft = 2 then Some b
      else if ft = 3 then Some (word_of_int ((uint a + uint b) div 2))
      else if ft = 4 then Some (paeth a b c)
      else None)"

fun unfilter_row :: "nat \<Rightarrow> bytes \<Rightarrow> bytes \<Rightarrow> bytes \<Rightarrow> bytes option" where
  "unfilter_row ft prior recon [] = Some recon"
| "unfilter_row ft prior recon (x # xs) =
     (let i = length recon;
          a = (if i < 4 then 0 else recon ! (i - 4));
          b = (if i < length prior then prior ! i else 0);
          c = (if i < 4 \<or> length prior \<le> i - 4 then 0 else prior ! (i - 4))
      in case predictor ft a b c of
           None \<Rightarrow> None
         | Some p \<Rightarrow> unfilter_row ft prior (recon @ [x + p]) xs)"

fun scanlines :: "nat \<Rightarrow> nat \<Rightarrow> bytes \<Rightarrow> (byte \<times> bytes) list option" where
  "scanlines 0 n bs = (if bs = [] then Some [] else None)"
| "scanlines (Suc h) n bs =
     (case bs of
        [] \<Rightarrow> None
      | ft # rest \<Rightarrow>
          if length rest < n then None
          else (case scanlines h n (drop n rest) of
                  None \<Rightarrow> None
                | Some ls \<Rightarrow> Some ((ft, take n rest) # ls)))"

fun unfilter :: "bytes \<Rightarrow> (byte \<times> bytes) list \<Rightarrow> bytes list option" where
  "unfilter prior [] = Some []"
| "unfilter prior ((ft, line) # ls) =
     (case unfilter_row (unat ft) prior [] line of
        None \<Rightarrow> None
      | Some row \<Rightarrow>
          (case unfilter row ls of None \<Rightarrow> None | Some rows \<Rightarrow> Some (row # rows)))"

fun pixels :: "bytes \<Rightarrow> rgba list" where
  "pixels (r # g # b # a # rest) = (r, g, b, a) # pixels rest"
| "pixels _ = []"

definition decode_raster :: "nat \<Rightarrow> nat \<Rightarrow> bytes \<Rightarrow> rgba list list option" where
  "decode_raster w h raw =
     (case scanlines h (4 * w) raw of
        None \<Rightarrow> None
      | Some ls \<Rightarrow>
          (case unfilter (replicate (4 * w) 0) ls of
             None \<Rightarrow> None
           | Some rows \<Rightarrow> Some (map pixels rows)))"

text \<open>
  A decoder for the files of this kind (8-bit RGBA, not interlaced): signature, chunks
  with valid checksums, IHDR first and IEND last, the IDAT payloads concatenated,
  decompressed and unfiltered.
\<close>

text \<open>The format limits its four-byte integers to \<open>2^31 - 1\<close>.\<close>

definition png_limit :: int where
  "png_limit = 2147483647"

record image =
  img_width :: int
  img_height :: int
  img_rows :: "rgba list list"

definition decode_png :: "decompressor \<Rightarrow> bytes \<Rightarrow> image option" where
  "decode_png zd bs =
     (case read_png bs of
        None \<Rightarrow> None
      | Some [] \<Rightarrow> None
      | Some (c # cs) \<Rightarrow>
          if \<not> list_all crc_ok (c # cs) \<or> ck_type c \<noteq> ascii ''IHDR''
             \<or> ck_type (last (c # cs)) \<noteq> ascii ''IEND''
          then None
          else (case read_header (ck_data c) of
                  None \<Rightarrow> None
                | Some h \<Rightarrow>
                    if hd_width h \<le> 0 \<or> hd_height h \<le> 0
                       \<or> png_limit < hd_width h \<or> png_limit < hd_height h
                       \<or> hd_bit_depth h \<noteq> 8
                       \<or> hd_color_type h \<noteq> 6 \<or> hd_compression h \<noteq> 0
                       \<or> hd_filter h \<noteq> 0 \<or> hd_interlace h \<noteq> 0
                    then None
                    else (case zd (concat (map ck_data (filter (\<lambda>k. ck_type k = ascii ''IDAT'') cs))) of
                            None \<Rightarrow> None
                          | Some raw \<Rightarrow>
                              (case decode_raster (nat (hd_width h)) (nat (hd_height h)) raw of
                                 None \<Rightarrow> None
                               | Some rows \<Rightarrow>
                                   Some \<lparr>img_width = hd_width h, img_height = hd_height h,
                                         img_rows = rows\<rparr>))))"

text \<open>
  The same decoder, refusing in addition a file with a chunk whose length field is
  beyond the limit of the format.
\<close>

definition decode_png_strict :: "decompressor \<Rightarrow> bytes \<Rightarrow> image option" where
  "decode_png_strict zd bs =
     (case read_png bs of
        None \<Rightarrow> None
      | Some cs \<Rightarrow>
          if list_all (\<lambda>c. ck_length c \<le> png_limit) cs then decode_png zd bs else None)"

section \<open>An instance of the compressor: zlib streams of stored blocks\<close>

text \<open>
  A zlib stream that holds the data uncompressed: the two header bytes, deflate blocks of
  type "stored" of at most 65535 bytes each, and the Adler-32 checksum of the data. It
  is one function that meets what the model asks of \<^verbatim>\<open>zlib.compress\<close>, with a reader
  for it.
\<close>

definition adler32 :: "bytes \<Rightarrow> int" where
  "adler32 data =
     (case foldl (\<lambda>(a, b) x. ((a + uint x) mod 65521, (b + (a + uint x) mod 65521) mod 65521))
             (1, 0) data of
        (a, b) \<Rightarrow> b * 65536 + a)"

definition le16 :: "nat \<Rightarrow> bytes" where
  "le16 n = [word_of_nat n, word_of_nat (n div 256)]"

function stored_blocks :: "bytes \<Rightarrow> bytes" where
  "stored_blocks data =
     (if length data \<le> 65535
      then 1 # le16 (length data) @ le16 (65535 - length data) @ data
      else 0 # le16 65535 @ le16 0 @ take 65535 data @ stored_blocks (drop 65535 data))"
  by pat_completeness auto
termination
  by (relation "measure length") auto

declare stored_blocks.simps [simp del]

definition store :: compressor where
  "store data level = [0x78, 0x01] @ stored_blocks data @ be_bytes 4 (adler32 data)"

text \<open>
  The same stream under the header bytes that zlib writes at its highest level: another
  compressor, with other bytes, read by the same reader.
\<close>

definition store_max :: compressor where
  "store_max data level = [0x78, 0xDA] @ stored_blocks data @ be_bytes 4 (adler32 data)"

fun unstore_blocks :: "bytes \<Rightarrow> (bytes \<times> bytes) option" where
  "unstore_blocks (h # l0 # l1 # n0 # n1 # rest) =
     (let len = unat l0 + 256 * unat l1; nlen = unat n0 + 256 * unat n1
      in if unat h div 2 mod 4 \<noteq> 0 \<or> len + nlen \<noteq> 65535 \<or> length rest < len then None
         else if odd (unat h) then Some (take len rest, drop len rest)
         else (case unstore_blocks (drop len rest) of
                 None \<Rightarrow> None
               | Some (d, r) \<Rightarrow> Some (take len rest @ d, r)))"
| "unstore_blocks _ = None"

definition unstore :: decompressor where
  "unstore s =
     (case s of
        cmf # flg # body \<Rightarrow>
          if unat cmf mod 16 \<noteq> 8 \<or> (unat cmf * 256 + unat flg) mod 31 \<noteq> 0
             \<or> unat flg div 32 mod 2 \<noteq> 0
          then None
          else (case unstore_blocks body of
                  None \<Rightarrow> None
                | Some (d, r) \<Rightarrow>
                    if length r = 4 \<and> be_int r = adler32 d then Some d else None)
      | _ \<Rightarrow> None)"

section \<open>The output in closed form\<close>

text \<open>
  What the file is said to be: the signature and the three chunks, the header payload
  being width, height, bit depth 8, colour type 6 and three zero bytes. The script can
  build it when the size is not negative, the raster fits a \<^verbatim>\<open>bytes\<close> object and the
  length of the compressed stream fits its 32-bit field.
\<close>

definition header_payload :: "int \<Rightarrow> bytes" where
  "header_payload sz = be_bytes 4 sz @ be_bytes 4 sz @ [8, 6, 0, 0, 0]"

definition png_image :: "compressor \<Rightarrow> int \<Rightarrow> bytes" where
  "png_image zc sz =
     signature @ chunk ''IHDR'' (header_payload sz) @ chunk ''IDAT'' (compressed zc sz)
       @ chunk ''IEND'' []"

definition encodable :: "compressor \<Rightarrow> int \<Rightarrow> bool" where
  "encodable zc sz \<longleftrightarrow>
     0 \<le> sz \<and> raster_fits sz \<and> length (compressed zc sz) < 4294967296"

text \<open>The range of an unsigned 32-bit field.\<close>

definition u32 :: "int \<Rightarrow> bool" where
  "u32 v \<longleftrightarrow> 0 \<le> v \<and> v < 4294967296"

text \<open>A state to run the script in: no file yet, every name writable, nothing printed.\<close>

definition empty_world :: world where
  "empty_world = \<lparr>files = Map.empty, unwritable = {}, trace = []\<rparr>"

section \<open>Lemmas on the building blocks\<close>

lemma fold_const: "fold (\<lambda>x acc. g acc) xs a = (g ^^ length xs) a"
  by (induction xs arbitrary: a) (simp_all add: funpow_swap1)

lemma funpow_append: "((\<lambda>acc. acc @ c) ^^ n) a = a @ concat (replicate n c)"
  by (induction n arbitrary: a) (simp_all del: funpow.simps add: funpow_Suc_right)

lemma length_py_range: "length (py_range n) = nat n"
  by (simp add: py_range_def)

lemma row_loop_eq: "row_loop width raw = raw @ concat (replicate (nat width) pixel)"
  by (simp add: row_loop_def fold_const funpow_append length_py_range)

lemma funpow_rows: "((\<lambda>acc. (acc @ [z]) @ r) ^^ n) a = a @ concat (replicate n (z # r))"
  using funpow_append[where c="z # r" and n=n and a=a] by simp

lemma raw_data_eq:
  "raw_data sz = concat (replicate (nat sz) (0 # concat (replicate (nat sz) pixel)))"
  using funpow_rows[where z=0 and r="concat (replicate (nat sz) pixel)" and n="nat sz" and a="[]"]
  by (simp add: raw_data_def row_loop_eq fold_const length_py_range)

lemma length_concat_replicate: "length (concat (replicate n xs)) = n * length xs"
  by (induction n) simp_all

lemma length_raw_data: "int (length (raw_data sz)) = (if sz \<le> 0 then 0 else sz * (1 + 4 * sz))"
  by (simp add: raw_data_eq length_concat_replicate pixel_def algebra_simps)

lemma be_bytes_4: "be_bytes 4 v = [word_of_int (v div 16777216), word_of_int (v div 65536), word_of_int (v div 256), word_of_int v]"
  by (simp add: be_bytes_def numeral_eq_Suc)

lemma be_bytes_1: "be_bytes (Suc 0) v = [word_of_int v]"
  by (simp add: be_bytes_def)

lemma uint_byte: "uint (word_of_int x :: byte) = x mod 256"
  by (simp add: uint_word_of_int)

lemma be_int_be_bytes_4:
  assumes "0 \<le> v" "v < 4294967296"
  shows "be_int (be_bytes 4 v) = v"
proof -
  have d2: "v div 65536 = v div 256 div 256" and d3: "v div 16777216 = v div 256 div 256 div 256"
    by (simp_all add: zdiv_zmult2_eq [symmetric])
  have top: "v div 16777216 mod 256 = v div 16777216"
  proof -
    have "v div 16777216 < 256" "0 \<le> v div 16777216" using assms by arith+
    then show ?thesis by simp
  qed
  have "be_int (be_bytes 4 v) =
      ((v div 16777216 * 256 + v div 65536 mod 256) * 256 + v div 256 mod 256) * 256 + v mod 256"
    unfolding be_bytes_4 be_int_def by (simp add: uint_byte top)
  also have "\<dots> = v"
    unfolding d2 d3 by (simp add: algebra_simps)
  finally show ?thesis .
qed

lemma and_mask32: "(x::int) AND 0xffffffff = x mod 2^32"
  using take_bit_eq_mask[of 32 x] by (simp add: take_bit_eq_mod mask_eq_exp_minus_1)

lemma u32_xor: "u32 x \<Longrightarrow> u32 y \<Longrightarrow> u32 (x XOR y)"
  unfolding u32_def using XOR_upper[of x 32 y] by simp

lemma crc_shift_range: "u32 c \<Longrightarrow> u32 (crc_shift c)"
proof -
  assume c: "u32 c"
  then have h: "u32 (c div 2)" unfolding u32_def by arith
  have "u32 3988292384" by (simp add: u32_def)
  with h have "u32 (c div 2 XOR 3988292384)" by (rule u32_xor)
  with h show ?thesis by (simp add: crc_shift_def)
qed


lemma crc_shift_pow_range: "u32 c \<Longrightarrow> u32 ((crc_shift ^^ n) c)"
  by (induction n) (simp_all add: crc_shift_range)

lemma crc_update_range:
  assumes "u32 c"
  shows "u32 (crc_update c b)"
proof -
  have "u32 (uint b)"
    using uint_bounded[of b] by (simp add: u32_def)
  with assms have "u32 (c XOR uint b)" by (rule u32_xor)
  then show ?thesis unfolding crc_update_def by (rule crc_shift_pow_range)
qed

lemma foldl_crc_range: "u32 c \<Longrightarrow> u32 (foldl crc_update c bs)"
  by (induction bs arbitrary: c) (simp_all add: crc_update_range)

lemma crc32_u32: "u32 (crc32 bs)"
  unfolding crc32_def by (intro u32_xor foldl_crc_range) (simp_all add: u32_def)

lemma crc32_range: "0 \<le> crc32 bs \<and> crc32 bs < 4294967296"
  using crc32_u32[of bs] by (simp add: u32_def)

lemma crc32_masked: "crc32 bs AND 0xffffffff = crc32 bs"
  using crc32_range[of bs] by (simp add: and_mask32)

lemma pack_crc: "struct_pack [FmtI] [crc32 bs AND 0xffffffff] = Inr (be_bytes 4 (crc32 bs))"
  using crc32_range[of bs] by (simp add: crc32_masked)

lemma ihdr_data_eq:
  "0 \<le> sz \<Longrightarrow> sz < 4294967296 \<Longrightarrow>
   ihdr_data sz = Inr (be_bytes 4 sz @ be_bytes 4 sz @ [8, 6, 0, 0, 0])"
  by (simp add: ihdr_data_def be_bytes_1)

lemma ihdr_data_error:
  "sz < 0 \<or> 4294967296 \<le> sz \<Longrightarrow> ihdr_data sz = Inl StructError"
  by (auto simp add: ihdr_data_def)

lemma length_be_bytes: "length (be_bytes n v) = n"
  by (simp add: be_bytes_def)

lemma ihdr_eq:
  "0 \<le> sz \<Longrightarrow> sz < 4294967296 \<Longrightarrow>
   ihdr sz = Inr (chunk ''IHDR'' (be_bytes 4 sz @ be_bytes 4 sz @ [8, 6, 0, 0, 0]))"
  unfolding ihdr_def by (simp only: ihdr_data_eq Let_def pack_crc sum.case) (simp add: chunk_def length_be_bytes)

lemma idat_eq:
  "length (compressed zc sz) < 4294967296 \<Longrightarrow> idat zc sz = Inr (chunk ''IDAT'' (compressed zc sz))"
  unfolding idat_def by (simp only: Let_def pack_crc sum.case) (simp add: chunk_def)

lemma idat_error:
  "4294967296 \<le> length (compressed zc sz) \<Longrightarrow> idat zc sz = Inl StructError"
  unfolding idat_def by (simp only: Let_def pack_crc sum.case) simp

lemma iend_eq: "iend = Inr (chunk ''IEND'' [])"
  unfolding iend_def by (simp only: Let_def pack_crc sum.case) (simp add: chunk_def)


lemma raster_fits_iff:
  "raster_fits sz \<longleftrightarrow> sz \<le> 0 \<or> sz * (1 + 4 * sz) \<le> 9223372036854775807"
  by (simp add: raster_fits_def sys_maxsize_def length_raw_data)

lemma raster_fits_nonpos: "sz \<le> 0 \<Longrightarrow> raster_fits sz"
  by (simp add: raster_fits_iff)

lemma raster_fits_small:
  assumes "sz \<le> 1024"
  shows "raster_fits sz"
proof (cases "sz \<le> 0")
  case True
  then show ?thesis by (rule raster_fits_nonpos)
next
  case False
  then have "sz * (1 + 4 * sz) \<le> 1024 * (1 + 4 * 1024)"
    using assms by (intro mult_mono) simp_all
  then show ?thesis by (simp add: raster_fits_iff)
qed

lemma not_raster_fits_large:
  assumes "2147483648 \<le> sz"
  shows "\<not> raster_fits sz"
proof -
  have "2147483648 * (1 + 4 * 2147483648) \<le> sz * (1 + 4 * sz)"
    using assms by (intro mult_mono) simp_all
  with assms show ?thesis by (simp add: raster_fits_iff)
qed

lemma raster_fits_bound: "raster_fits sz \<Longrightarrow> sz \<le> 2147483647"
  using not_raster_fits_large[of sz] by fastforce

lemma encodable_range: "encodable zc sz \<Longrightarrow> 0 \<le> sz \<and> sz \<le> 2147483647"
  by (simp add: encodable_def raster_fits_bound)

lemma png_bytes_eq:
  "png_bytes zc sz =
     (if encodable zc sz then Inr (png_image zc sz)
      else if raster_fits sz then Inl StructError
      else Inl MemoryError)"
proof (cases "raster_fits sz")
  case False
  then show ?thesis by (simp add: png_bytes_def raster_def encodable_def)
next
  case fits: True
  then have le: "sz \<le> 2147483647" by (rule raster_fits_bound)
  show ?thesis
  proof (cases "0 \<le> sz")
    case False
    then have "ihdr_data sz = Inl StructError" by (intro ihdr_data_error) auto
    moreover from False have "\<not> encodable zc sz" by (auto simp add: encodable_def)
    ultimately show ?thesis using fits by (simp add: png_bytes_def raster_def ihdr_def)
  next
    case True
    with le have h: "ihdr sz = Inr (chunk ''IHDR'' (header_payload sz))"
      by (simp add: ihdr_eq header_payload_def)
    show ?thesis
    proof (cases "length (compressed zc sz) < 4294967296")
      case True
      with \<open>0 \<le> sz\<close> fits show ?thesis
        by (simp add: png_bytes_def raster_def h idat_eq iend_eq png_image_def encodable_def)
    next
      case False
      then have "idat zc sz = Inl StructError" by (intro idat_error) simp
      moreover from False have "\<not> encodable zc sz" by (auto simp add: encodable_def)
      ultimately show ?thesis using fits by (simp add: png_bytes_def raster_def h)
    qed
  qed
qed

lemma create_png_eq:
  "create_png zc (PyInt sz) filename w =
     (if encodable zc sz
      then if filename \<in> unwritable w then (Inl OSError, w)
           else (Inr (), w\<lparr>files := (files w)(filename \<mapsto> png_image zc sz),
                            trace := trace w @ [FileOpen filename,
                                                FileWrite filename (png_image zc sz),
                                                Print (created_msg filename sz)]\<rparr>)
      else if raster_fits sz then (Inl StructError, w)
      else (Inl MemoryError, w))"
  by (simp add: create_png_def png_bytes_eq open_wb_def write_bytes_def print_line_def)

lemma length_ascii: "length (ascii s) = length s"
  by (simp add: ascii_def)

lemma read_chunks_chunk:
  assumes "length payload < 4294967296" "length tag = 4"
  shows "read_chunks (chunk tag payload @ rest) =
     (case read_chunks rest of
        None \<Rightarrow> None
      | Some cs \<Rightarrow> Some (\<lparr>ck_length = int (length payload), ck_type = ascii tag,
                           ck_data = payload, ck_crc = crc32 (ascii tag @ payload)\<rparr> # cs))"
proof -
  define n where "n = length payload"
  define bs where "bs = chunk tag payload @ rest"
  have bs: "bs = be_bytes 4 (int n) @ ascii tag @ payload @ be_bytes 4 (crc32 (ascii tag @ payload)) @ rest"
    by (simp add: bs_def chunk_def n_def)
  have t1: "take 4 bs = be_bytes 4 (int n)"
    by (simp add: bs length_be_bytes)
  have t2: "take 4 (drop 4 bs) = ascii tag"
    using assms(2) by (simp add: bs length_be_bytes length_ascii)
  have t3: "take n (drop 8 bs) = payload"
    using assms(2) by (simp add: bs length_be_bytes length_ascii n_def)
  have t4: "take 4 (drop (8 + n) bs) = be_bytes 4 (crc32 (ascii tag @ payload))"
    using assms(2) by (simp add: bs length_be_bytes length_ascii n_def)
  have t5: "drop (12 + n) bs = rest"
    using assms(2) by (simp add: bs length_be_bytes length_ascii n_def)
  have l: "length bs = 12 + n + length rest"
    using assms(2) by (simp add: bs length_be_bytes length_ascii n_def)
  have len: "nat (be_int (take 4 bs)) = n" "be_int (take 4 bs) = int n"
    using assms(1) by (simp_all add: t1 be_int_be_bytes_4 n_def)
  have crc: "be_int (be_bytes 4 (crc32 (ascii tag @ payload))) = crc32 (ascii tag @ payload)"
    using crc32_range[of "ascii tag @ payload"] by (simp add: be_int_be_bytes_4)
  have ne: "bs \<noteq> []" using l by auto
  have "read_chunks bs = (case read_chunks rest of
        None \<Rightarrow> None
      | Some cs \<Rightarrow> Some (\<lparr>ck_length = int n, ck_type = ascii tag,
                           ck_data = payload, ck_crc = crc32 (ascii tag @ payload)\<rparr> # cs))"
    by (subst read_chunks.simps) (simp add: len t2 t3 t4 t5 crc ne l split: option.splits)
  then show ?thesis unfolding bs_def n_def .
qed

lemma read_png_image:
  assumes "encodable zc sz"
  shows "read_png (png_image zc sz) =
     Some [\<lparr>ck_length = 13, ck_type = ascii ''IHDR'', ck_data = header_payload sz,
             ck_crc = crc32 (ascii ''IHDR'' @ header_payload sz)\<rparr>,
           \<lparr>ck_length = int (length (compressed zc sz)), ck_type = ascii ''IDAT'',
             ck_data = compressed zc sz, ck_crc = crc32 (ascii ''IDAT'' @ compressed zc sz)\<rparr>,
           \<lparr>ck_length = 0, ck_type = ascii ''IEND'', ck_data = [],
             ck_crc = crc32 (ascii ''IEND'')\<rparr>]"
proof -
  have e: "read_chunks [] = Some []" by (subst read_chunks.simps) simp
  have hl: "length (header_payload sz) = 13" by (simp add: header_payload_def length_be_bytes)
  have 3: "read_chunks (chunk ''IEND'' []) = Some [\<lparr>ck_length = 0, ck_type = ascii ''IEND'', ck_data = [],
             ck_crc = crc32 (ascii ''IEND'')\<rparr>]"
    using read_chunks_chunk[where tag="''IEND''" and payload="[]" and rest="[]"] by (simp add: e)
  have 2: "read_chunks (chunk ''IDAT'' (compressed zc sz) @ chunk ''IEND'' []) =
     Some [\<lparr>ck_length = int (length (compressed zc sz)), ck_type = ascii ''IDAT'',
             ck_data = compressed zc sz, ck_crc = crc32 (ascii ''IDAT'' @ compressed zc sz)\<rparr>,
           \<lparr>ck_length = 0, ck_type = ascii ''IEND'', ck_data = [],
             ck_crc = crc32 (ascii ''IEND'')\<rparr>]"
    using assms read_chunks_chunk[where tag="''IDAT''" and payload="compressed zc sz" and rest="chunk ''IEND'' []"]
    by (simp add: 3 encodable_def)
  have 1: "read_chunks (chunk ''IHDR'' (header_payload sz) @ chunk ''IDAT'' (compressed zc sz) @ chunk ''IEND'' []) = Some [\<lparr>ck_length = 13, ck_type = ascii ''IHDR'', ck_data = header_payload sz,
             ck_crc = crc32 (ascii ''IHDR'' @ header_payload sz)\<rparr>,
           \<lparr>ck_length = int (length (compressed zc sz)), ck_type = ascii ''IDAT'',
             ck_data = compressed zc sz, ck_crc = crc32 (ascii ''IDAT'' @ compressed zc sz)\<rparr>,
           \<lparr>ck_length = 0, ck_type = ascii ''IEND'', ck_data = [],
             ck_crc = crc32 (ascii ''IEND'')\<rparr>]"
    using read_chunks_chunk[where tag="''IHDR''" and payload="header_payload sz" and rest="chunk ''IDAT'' (compressed zc sz) @ chunk ''IEND'' []"]
    by (simp add: 2 hl)
  show ?thesis
    by (simp add: read_png_def png_image_def signature_def 1)
qed

lemma unfilter_row_none: "unfilter_row 0 prior recon xs = Some (recon @ xs)"
  by (induction xs arbitrary: recon) (simp_all add: predictor_def Let_def)

lemma scanlines_replicate:
  "length row = n \<Longrightarrow> scanlines h n (concat (replicate h (ft # row))) = Some (replicate h (ft, row))"
  by (induction h) simp_all

lemma unfilter_replicate: "unfilter prior (replicate h (0, row)) = Some (replicate h row)"
  by (induction h arbitrary: prior) (simp_all add: unfilter_row_none)

lemma pixels_replicate: "pixels (concat (replicate n pixel)) = replicate n (124, 58, 237, 255)"
  by (induction n) (simp_all add: pixel_def)

lemma decode_raster_raw_data:
  "decode_raster (nat sz) (nat sz) (raw_data sz) =
     Some (replicate (nat sz) (replicate (nat sz) (124, 58, 237, 255)))"
  by (simp add: decode_raster_def raw_data_eq scanlines_replicate length_concat_replicate
      pixel_def[THEN arg_cong, of length] unfilter_replicate pixels_replicate)

lemma read_header_payload:
  "0 \<le> sz \<Longrightarrow> sz < 4294967296 \<Longrightarrow>
   read_header (header_payload sz) =
     Some \<lparr>hd_width = sz, hd_height = sz, hd_bit_depth = 8, hd_color_type = 6,
           hd_compression = 0, hd_filter = 0, hd_interlace = 0\<rparr>"
  by (simp add: read_header_def header_payload_def length_be_bytes be_int_be_bytes_4 nth_append)

lemma decode_png_image:
  assumes "zlib_lossless zc zd" "0 < sz" "encodable zc sz"
  shows "decode_png zd (png_image zc sz) =
     Some \<lparr>img_width = sz, img_height = sz,
           img_rows = replicate (nat sz) (replicate (nat sz) (124, 58, 237, 255))\<rparr>"
proof -
  have z: "zd (compressed zc sz) = Some (raw_data sz)"
    using assms(1) by (simp add: zlib_lossless_def compressed_def)
  have h: "read_header (header_payload sz) =
     Some \<lparr>hd_width = sz, hd_height = sz, hd_bit_depth = 8, hd_color_type = 6,
           hd_compression = 0, hd_filter = 0, hd_interlace = 0\<rparr>"
    using assms(2) encodable_range[OF assms(3)] by (simp add: read_header_payload)
  have t: "ascii ''IDAT'' \<noteq> ascii ''IEND''" "ascii ''IHDR'' \<noteq> ascii ''IEND''"
    by (simp_all add: ascii_def)
  show ?thesis
    using assms(2) encodable_range[OF assms(3)]
    by (simp add: decode_png_def read_png_image[OF assms(3)] crc_ok_def h z t
        decode_raster_raw_data png_limit_def)
qed

lemma decode_png_strict_image:
  assumes "zlib_lossless zc zd" "0 < sz" "encodable zc sz"
    and "int (length (compressed zc sz)) \<le> png_limit"
  shows "decode_png_strict zd (png_image zc sz) =
     Some \<lparr>img_width = sz, img_height = sz,
           img_rows = replicate (nat sz) (replicate (nat sz) (124, 58, 237, 255))\<rparr>"
  using assms(4)
  by (simp add: decode_png_strict_def read_png_image[OF assms(3)] decode_png_image[OF assms(1-3)]
      png_limit_def)


section \<open>The stored-block instance is a lossless compressor\<close>

lemma le16_decode:
  "n \<le> 65535 \<Longrightarrow> unat (word_of_nat n :: byte) + 256 * unat (word_of_nat (n div 256) :: byte) = n"
  by (simp add: unat_of_nat)

lemma unstore_stored_blocks: "unstore_blocks (stored_blocks d @ r) = Some (d, r)"
proof (induction d rule: stored_blocks.induct)
  case (1 d)
  show ?case
  proof (cases "length d \<le> 65535")
    case True
    then have s: "stored_blocks d = 1 # le16 (length d) @ le16 (65535 - length d) @ d"
      by (subst stored_blocks.simps) simp
    have "unat (word_of_nat (length d) :: byte) + 256 * unat (word_of_nat (length d div 256) :: byte) = length d"
      "unat (word_of_nat (65535 - length d) :: byte) + 256 * unat (word_of_nat ((65535 - length d) div 256) :: byte) = 65535 - length d"
      using True by (simp_all add: le16_decode del: of_nat_diff)
    with True show ?thesis by (simp add: s le16_def del: of_nat_diff)
  next
    case False
    then have s: "stored_blocks d = 0 # le16 65535 @ le16 0 @ take 65535 d @ stored_blocks (drop 65535 d)"
      by (subst stored_blocks.simps) simp
    have ih: "unstore_blocks (stored_blocks (drop 65535 d) @ r) = Some (drop 65535 d, r)"
      using False by (intro "1.IH") simp
    from False show ?thesis by (simp add: s le16_def ih min_def)
  qed
qed

lemma adler_fold_range:
  "0 \<le> a \<Longrightarrow> a < 65521 \<Longrightarrow> 0 \<le> b \<Longrightarrow> b < 65521 \<Longrightarrow>
   (case foldl (\<lambda>(a, b) x. ((a + uint x) mod 65521, (b + (a + uint x) mod 65521) mod 65521)) (a, b) d of
      (a', b') \<Rightarrow> 0 \<le> a' \<and> a' < 65521 \<and> 0 \<le> b' \<and> b' < 65521)"
  by (induction d arbitrary: a b) simp_all

lemma adler32_range: "0 \<le> adler32 d \<and> adler32 d < 4294967296"
  using adler_fold_range[of 1 0 d] unfolding adler32_def by (auto split: prod.splits)

lemma store_lossless: "zlib_lossless store unstore"
proof -
  have "unstore (store d l) = Some d" for d l
    using unstore_stored_blocks[of d "be_bytes 4 (adler32 d)"] adler32_range[of d]
    by (simp add: store_def unstore_def length_be_bytes be_int_be_bytes_4)
  then show ?thesis by (simp add: zlib_lossless_def)
qed

lemma store_max_lossless: "zlib_lossless store_max unstore"
proof -
  have "unstore (store_max d l) = Some d" for d l
    using unstore_stored_blocks[of d "be_bytes 4 (adler32 d)"] adler32_range[of d]
    by (simp add: store_max_def unstore_def length_be_bytes be_int_be_bytes_4)
  then show ?thesis by (simp add: zlib_lossless_def)
qed

lemma length_stored_blocks: "length (stored_blocks d) \<le> 6 * length d + 5"
proof (induction d rule: stored_blocks.induct)
  case (1 d)
  show ?case
  proof (cases "length d \<le> 65535")
    case True
    then show ?thesis by (subst stored_blocks.simps) (simp add: le16_def)
  next
    case False
    then have "length (stored_blocks (drop 65535 d)) \<le> 6 * length (drop 65535 d) + 5"
      by (intro "1.IH") simp
    with False show ?thesis by (subst stored_blocks.simps) (simp add: le16_def)
  qed
qed

lemma length_store: "length (store d l) \<le> 6 * length d + 11"
  using length_stored_blocks[of d] by (simp add: store_def length_be_bytes)

lemma length_store_max: "length (store_max d l) \<le> 6 * length d + 11"
  using length_stored_blocks[of d] by (simp add: store_max_def length_be_bytes)

section \<open>When the script can build the file\<close>

lemma create_png_non_int: "create_png zc PyNonInt filename w = (Inl TypeError, w)"
  by (simp add: create_png_def)

lemma length_compressed_store:
  assumes "0 \<le> sz" "sz \<le> 1024"
  shows "length (compressed store sz) \<le> 25171979"
    and "length (compressed store_max sz) \<le> 25171979"
proof -
  have "sz * (1 + 4 * sz) \<le> 1024 * (1 + 4 * 1024)"
    using assms by (intro mult_mono) simp_all
  then have "int (length (raw_data sz)) \<le> 4195328"
    by (simp add: length_raw_data)
  then have l: "length (raw_data sz) \<le> 4195328" by simp
  from l show "length (compressed store sz) \<le> 25171979"
    using length_store[of "raw_data sz" 9] by (simp add: compressed_def)
  from l show "length (compressed store_max sz) \<le> 25171979"
    using length_store_max[of "raw_data sz" 9] by (simp add: compressed_def)
qed

lemma encodable_store: "0 \<le> sz \<Longrightarrow> sz \<le> 1024 \<Longrightarrow> encodable store sz"
  using length_compressed_store(1)[of sz] by (simp add: encodable_def raster_fits_small)

lemma encodable_store_max: "0 \<le> sz \<Longrightarrow> sz \<le> 1024 \<Longrightarrow> encodable store_max sz"
  using length_compressed_store(2)[of sz] by (simp add: encodable_def raster_fits_small)

lemma compressed_store_limit:
  "0 \<le> sz \<Longrightarrow> sz \<le> 1024 \<Longrightarrow> int (length (compressed store sz)) \<le> png_limit"
  "0 \<le> sz \<Longrightarrow> sz \<le> 1024 \<Longrightarrow> int (length (compressed store_max sz)) \<le> png_limit"
  using length_compressed_store[of sz] by (simp_all add: png_limit_def)

lemma not_encodable_negative: "sz < 0 \<Longrightarrow> \<not> encodable zc sz"
  by (simp add: encodable_def)

lemma create_png_returns:
  assumes "create_png zc a filename w = (Inr u, w')"
  shows "\<exists>sz. a = PyInt sz \<and> encodable zc sz \<and> filename \<notin> unwritable w
     \<and> w' = w\<lparr>files := (files w)(filename \<mapsto> png_image zc sz),
               trace := trace w @ [FileOpen filename, FileWrite filename (png_image zc sz),
                                   Print (created_msg filename sz)]\<rparr>"
proof (cases a)
  case PyNonInt
  with assms show ?thesis by (simp add: create_png_non_int)
next
  case (PyInt sz)
  with assms show ?thesis by (auto simp add: create_png_eq split: if_splits)
qed

lemma writes_append: "writes (xs @ ys) = writes xs @ writes ys"
  by (induction xs rule: writes.induct) simp_all

lemma stdout_append: "stdout (xs @ ys) = stdout xs @ stdout ys"
  by (induction xs rule: stdout.induct) simp_all

section \<open>Known values\<close>

text \<open>
  The checksum is the standard one: its check value on the digits 1 to 9, and the four
  checksum bytes that end every PNG file. With the stored-block compressor the 1 by 1
  file is, byte for byte, what the script writes when zlib works at level 0.
\<close>

lemma crc_update_unfold:
  "crc_update c b = crc_shift (crc_shift (crc_shift (crc_shift (crc_shift (crc_shift (crc_shift (crc_shift (c XOR uint b))))))))"
  by (simp add: crc_update_def numeral_eq_Suc)

lemma crc32_IEND: "crc32 (ascii ''IEND'') = 0xAE426082"
  by (simp add: ascii_def crc32_def crc_update_unfold crc_shift_def)

lemma crc32_check: "crc32 (ascii ''123456789'') = 0xCBF43926"
  by (simp add: ascii_def crc32_def crc_update_unfold crc_shift_def)

lemma png_1x1:
  "png_bytes store 1 =
     Inr [137, 80, 78, 71, 13, 10, 26, 10,
          0, 0, 0, 13, 73, 72, 68, 82, 0, 0, 0, 1, 0, 0, 0, 1, 8, 6, 0, 0, 0, 31, 21, 196, 137,
          0, 0, 0, 16, 73, 68, 65, 84, 120, 1, 1, 5, 0, 250, 255, 0, 124, 58, 237, 255,
          5, 124, 2, 163, 149, 58, 39, 128,
          0, 0, 0, 0, 73, 69, 78, 68, 174, 66, 96, 130]"
proof -
  have c: "compressed store 1 = [120, 1, 1, 5, 0, 250, 255, 0, 124, 58, 237, 255, 5, 124, 2, 163]"
    by (simp add: store_def stored_blocks.simps le16_def adler32_def be_bytes_4 raw_data_eq
        pixel_def compressed_def)
  have e: "encodable store 1" by (simp add: encodable_store)
  show ?thesis
    by (simp add: png_bytes_eq e png_image_def chunk_def header_payload_def c signature_def
        be_bytes_4 ascii_def crc32_def crc_update_unfold crc_shift_def)
qed

lemma png_image_1x1:
  "png_image store 1 =
     [137, 80, 78, 71, 13, 10, 26, 10,
      0, 0, 0, 13, 73, 72, 68, 82, 0, 0, 0, 1, 0, 0, 0, 1, 8, 6, 0, 0, 0, 31, 21, 196, 137,
      0, 0, 0, 16, 73, 68, 65, 84, 120, 1, 1, 5, 0, 250, 255, 0, 124, 58, 237, 255,
      5, 124, 2, 163, 149, 58, 39, 128,
      0, 0, 0, 0, 73, 69, 78, 68, 174, 66, 96, 130]"
  using png_1x1 by (simp add: png_bytes_eq encodable_store)

lemma create_png_store_1:
  "create_png store (PyInt 1) ''icon.png'' empty_world =
     (Inr (), \<lparr>files = [''icon.png'' \<mapsto> png_image store 1], unwritable = {},
               trace = [FileOpen ''icon.png'', FileWrite ''icon.png'' (png_image store 1), Print ''Created icon.png (1x1)'']\<rparr>)"
  by (simp add: create_png_eq encodable_store raster_fits_small empty_world_def created_msg_def
      str_int_def str_nat.simps)

lemma png_image_0x0:
  "png_image store 0 =
     [137, 80, 78, 71, 13, 10, 26, 10,
      0, 0, 0, 13, 73, 72, 68, 82, 0, 0, 0, 0, 0, 0, 0, 0, 8, 6, 0, 0, 0, 59, 139, 124, 18,
      0, 0, 0, 11, 73, 68, 65, 84, 120, 1, 1, 0, 0, 255, 255, 0, 0, 0, 1, 137, 214, 174, 95,
      0, 0, 0, 0, 73, 69, 78, 68, 174, 66, 96, 130]"
proof -
  have c: "compressed store 0 = [120, 1, 1, 0, 0, 255, 255, 0, 0, 0, 1]"
    by (simp add: store_def stored_blocks.simps le16_def adler32_def be_bytes_4 raw_data_eq
        compressed_def)
  show ?thesis
    by (simp add: png_image_def chunk_def header_payload_def c signature_def
        be_bytes_4 ascii_def crc32_def crc_update_unfold crc_shift_def)
qed

lemma created_msgs:
  "created_msg ''32x32.png'' 32 = ''Created 32x32.png (32x32)''"
  "created_msg ''128x128.png'' 128 = ''Created 128x128.png (128x128)''"
  "created_msg ''128x128@2x.png'' 256 = ''Created 128x128@2x.png (256x256)''"
  "created_msg ''icon.png'' 512 = ''Created icon.png (512x512)''"
  by (simp_all add: created_msg_def str_int_def str_nat.simps)

section \<open>The claims\<close>

text \<open>
  C1: for every positive size S, whatever lossless compressor stands for zlib,
  decompressing the IDAT payload gives the raw data back, and the raw data are S
  scanlines, each a zero filter byte followed by S copies of the bytes 124, 58, 237, 255;
  so its length is \<open>S * (1 + 4 * S)\<close>, unfiltering it gives S rows of S pixels of that
  colour, and a decoder of the file the script builds finds an S by S image of it.
\<close>

theorem raster_round_trip:
  assumes "zlib_lossless zc zd" "0 < sz"
  shows "zd (compressed zc sz) = Some (raw_data sz)
     \<and> raw_data sz = concat (replicate (nat sz) (0 # concat (replicate (nat sz) [124, 58, 237, 255])))
     \<and> int (length (raw_data sz)) = sz * (1 + 4 * sz)
     \<and> decode_raster (nat sz) (nat sz) (raw_data sz) =
          Some (replicate (nat sz) (replicate (nat sz) (124, 58, 237, 255)))
     \<and> (\<forall>ck. idat zc sz = Inr ck \<longrightarrow> ck = chunk ''IDAT'' (compressed zc sz))
     \<and> (\<forall>bs. png_bytes zc sz = Inr bs \<longrightarrow>
           decode_png zd bs =
             Some \<lparr>img_width = sz, img_height = sz,
                   img_rows = replicate (nat sz) (replicate (nat sz) (124, 58, 237, 255))\<rparr>)"
proof -
  have 1: "zd (compressed zc sz) = Some (raw_data sz)"
    using assms(1) by (simp add: zlib_lossless_def compressed_def)
  have 2: "raw_data sz = concat (replicate (nat sz) (0 # concat (replicate (nat sz) [124, 58, 237, 255])))"
    by (simp add: raw_data_eq pixel_def)
  have 3: "int (length (raw_data sz)) = sz * (1 + 4 * sz)"
    using assms(2) by (simp add: length_raw_data)
  have 4: "ck = chunk ''IDAT'' (compressed zc sz)" if "idat zc sz = Inr ck" for ck
  proof (cases "length (compressed zc sz) < 4294967296")
    case True
    with that show ?thesis by (simp add: idat_eq)
  next
    case False
    with that show ?thesis by (simp add: idat_error)
  qed
  have 5: "decode_png zd bs =
             Some \<lparr>img_width = sz, img_height = sz,
                   img_rows = replicate (nat sz) (replicate (nat sz) (124, 58, 237, 255))\<rparr>"
    if "png_bytes zc sz = Inr bs" for bs
  proof -
    from that have e: "encodable zc sz" and bs: "bs = png_image zc sz"
      by (simp_all add: png_bytes_eq split: if_splits)
    show ?thesis unfolding bs by (rule decode_png_image[OF assms e])
  qed
  from 1 2 3 4 5 show ?thesis
    using decode_raster_raw_data[of sz] by blast
qed

theorem raster_round_trip_witness:
  "zlib_lossless store unstore \<and> (0 :: int) < 2
     \<and> unstore (compressed store 2) =
          Some [0, 124, 58, 237, 255, 124, 58, 237, 255, 0, 124, 58, 237, 255, 124, 58, 237, 255]
     \<and> int (length (raw_data 2)) = 2 * (1 + 4 * 2)
     \<and> decode_raster 2 2 (raw_data 2) =
          Some [ [(124, 58, 237, 255), (124, 58, 237, 255)],
                 [(124, 58, 237, 255), (124, 58, 237, 255)] ]"
proof -
  have l: "zlib_lossless store unstore" by (rule store_lossless)
  have p: "(0 :: int) < 2" by simp
  note r = raster_round_trip [OF l p]
  have r2: "raw_data 2 =
      [0, 124, 58, 237, 255, 124, 58, 237, 255, 0, 124, 58, 237, 255, 124, 58, 237, 255]"
    by (simp add: raw_data_eq pixel_def numeral_2_eq_2)
  from r have "unstore (compressed store 2) = Some (raw_data 2)"
    and "int (length (raw_data 2)) = 2 * (1 + 4 * 2)"
    and "decode_raster (nat 2) (nat 2) (raw_data 2) =
          Some (replicate (nat 2) (replicate (nat 2) (124, 58, 237, 255)))"
    by blast+
  with l show ?thesis by (simp add: r2 numeral_2_eq_2)
qed

text \<open>
  C2: for every positive size S, in a call whose raster loop has come through, the header
  payload that \<^verbatim>\<open>create_png\<close> builds next is exactly 13 bytes: S as 4 bytes big-endian,
  twice, then 8, 6, 0, 0, 0. The packing of line 29 cannot raise there, S is within the
  limit of the format, a reader of the header finds width S and height S, and so does
  a decoder of every file built for S (the decoder that refuses whatever is beyond the
  limit of the format, for a file whose IDAT chunk is within it).
\<close>

theorem header_payload_bytes:
  assumes "0 < sz" "raster sz = Inr raw"
  shows "ihdr_data sz = Inr (be_bytes 4 sz @ be_bytes 4 sz @ [8, 6, 0, 0, 0])
     \<and> length (be_bytes 4 sz @ be_bytes 4 sz @ [8, 6, 0, 0, 0]) = 13
     \<and> be_int (be_bytes 4 sz) = sz
     \<and> sz \<le> png_limit
     \<and> read_header (be_bytes 4 sz @ be_bytes 4 sz @ [8, 6, 0, 0, 0]) =
         Some \<lparr>hd_width = sz, hd_height = sz, hd_bit_depth = 8, hd_color_type = 6,
               hd_compression = 0, hd_filter = 0, hd_interlace = 0\<rparr>
     \<and> (\<forall>zc zd bs. zlib_lossless zc zd \<and> png_bytes zc sz = Inr bs
             \<and> int (length (compressed zc sz)) \<le> png_limit \<longrightarrow>
           (\<exists>im. decode_png_strict zd bs = Some im \<and> img_width im = sz \<and> img_height im = sz))"
proof -
  from assms(2) have fits: "raster_fits sz"
    by (simp add: raster_def split: if_splits)
  then have le: "sz \<le> 2147483647" by (rule raster_fits_bound)
  have 1: "ihdr_data sz = Inr (be_bytes 4 sz @ be_bytes 4 sz @ [8, 6, 0, 0, 0])"
    using assms(1) le by (simp add: ihdr_data_eq)
  have 2: "length (be_bytes 4 sz @ be_bytes 4 sz @ [8, 6, 0, 0, 0]) = 13"
    by (simp add: length_be_bytes)
  have 3: "be_int (be_bytes 4 sz) = sz"
    using assms(1) le by (simp add: be_int_be_bytes_4)
  have 4: "sz \<le> png_limit" using le by (simp add: png_limit_def)
  have 5: "read_header (be_bytes 4 sz @ be_bytes 4 sz @ [8, 6, 0, 0, 0]) =
         Some \<lparr>hd_width = sz, hd_height = sz, hd_bit_depth = 8, hd_color_type = 6,
               hd_compression = 0, hd_filter = 0, hd_interlace = 0\<rparr>"
    using assms(1) le read_header_payload[of sz] by (simp add: header_payload_def)
  have 6: "\<exists>im. decode_png_strict zd bs = Some im \<and> img_width im = sz \<and> img_height im = sz"
    if "zlib_lossless zc zd" "png_bytes zc sz = Inr bs"
      "int (length (compressed zc sz)) \<le> png_limit" for zc zd bs
  proof -
    from that(2) have e: "encodable zc sz" and bs: "bs = png_image zc sz"
      by (simp_all add: png_bytes_eq split: if_splits)
    show ?thesis
      using decode_png_strict_image[OF that(1) assms(1) e that(3)] by (simp add: bs)
  qed
  from 1 2 3 4 5 6 show ?thesis by blast
qed

theorem header_payload_bytes_witness:
  "(0 :: int) < 32 \<and> raster 32 = Inr (raw_data 32)
     \<and> ihdr_data 32 = Inr [0, 0, 0, 32, 0, 0, 0, 32, 8, 6, 0, 0, 0]
     \<and> read_header [0, 0, 0, 32, 0, 0, 0, 32, 8, 6, 0, 0, 0] =
         Some \<lparr>hd_width = 32, hd_height = 32, hd_bit_depth = 8, hd_color_type = 6,
               hd_compression = 0, hd_filter = 0, hd_interlace = 0\<rparr>
     \<and> zlib_lossless store unstore
     \<and> png_bytes store 32 = Inr (png_image store 32)
     \<and> int (length (compressed store 32)) \<le> png_limit
     \<and> (\<exists>im. decode_png_strict unstore (png_image store 32) = Some im
           \<and> img_width im = 32 \<and> img_height im = 32)"
proof -
  have p: "(0 :: int) < 32" by simp
  have r: "raster 32 = Inr (raw_data 32)" by (simp add: raster_def raster_fits_small)
  have l: "zlib_lossless store unstore" by (rule store_lossless)
  have b: "png_bytes store 32 = Inr (png_image store 32)"
    by (simp add: png_bytes_eq encodable_store)
  have c: "int (length (compressed store 32)) \<le> png_limit"
    by (simp add: compressed_store_limit)
  note t = header_payload_bytes [OF p r]
  from t have "ihdr_data 32 = Inr (be_bytes 4 32 @ be_bytes 4 32 @ [8, 6, 0, 0, 0])"
    and "read_header (be_bytes 4 32 @ be_bytes 4 32 @ [8, 6, 0, 0, 0]) =
         Some \<lparr>hd_width = 32, hd_height = 32, hd_bit_depth = 8, hd_color_type = 6,
               hd_compression = 0, hd_filter = 0, hd_interlace = 0\<rparr>"
    by blast+
  moreover from t l b c
  have "\<exists>im. decode_png_strict unstore (png_image store 32) = Some im
           \<and> img_width im = 32 \<and> img_height im = 32"
    by blast
  ultimately show ?thesis using r l b c by (simp add: be_bytes_4)
qed

text \<open>
  C3: for every positive size S, the byte sequence that a call of \<^verbatim>\<open>create_png\<close> has
  written when it returns is the 8 signature bytes followed by exactly three chunks,
  IHDR, IDAT and IEND in this order, each chunk being the 4-byte big-endian length of
  its payload, its 4-byte tag, the payload and the 4-byte big-endian CRC; a reader of
  the file finds the length fields 13, the length of the compressed stream, and 0.
\<close>

theorem written_bytes:
  assumes "0 < sz" "create_png zc (PyInt sz) filename w = (Inr (), w')"
  shows "\<exists>bs. files w' filename = Some bs
     \<and> writes (trace w') = writes (trace w) @ [(filename, bs)]
     \<and> bs = [0x89, 0x50, 0x4E, 0x47, 0x0D, 0x0A, 0x1A, 0x0A]
            @ chunk ''IHDR'' (be_bytes 4 sz @ be_bytes 4 sz @ [8, 6, 0, 0, 0])
            @ chunk ''IDAT'' (compressed zc sz)
            @ chunk ''IEND'' []
     \<and> map_option (map (\<lambda>c. (ck_length c, ck_type c, ck_data c))) (read_png bs) =
          Some [(13, ascii ''IHDR'', be_bytes 4 sz @ be_bytes 4 sz @ [8, 6, 0, 0, 0]),
                (int (length (compressed zc sz)), ascii ''IDAT'', compressed zc sz),
                (0, ascii ''IEND'', [])]
     \<and> length (be_bytes 4 sz @ be_bytes 4 sz @ [8, 6, 0, 0, 0]) = 13"
proof -
  from create_png_returns[OF assms(2)]
  have e: "encodable zc sz"
    and w': "w' = w\<lparr>files := (files w)(filename \<mapsto> png_image zc sz),
                    trace := trace w @ [FileOpen filename, FileWrite filename (png_image zc sz),
                                        Print (created_msg filename sz)]\<rparr>"
    by simp_all
  define bs where "bs = png_image zc sz"
  have 2: "files w' filename = Some bs" by (simp add: w' bs_def)
  have 3: "writes (trace w') = writes (trace w) @ [(filename, bs)]"
    by (simp add: w' bs_def writes_append)
  have 4: "bs = [0x89, 0x50, 0x4E, 0x47, 0x0D, 0x0A, 0x1A, 0x0A]
            @ chunk ''IHDR'' (be_bytes 4 sz @ be_bytes 4 sz @ [8, 6, 0, 0, 0])
            @ chunk ''IDAT'' (compressed zc sz)
            @ chunk ''IEND'' []"
    by (simp add: bs_def png_image_def header_payload_def signature_def)
  have 5: "map_option (map (\<lambda>c. (ck_length c, ck_type c, ck_data c))) (read_png bs) =
          Some [(13, ascii ''IHDR'', be_bytes 4 sz @ be_bytes 4 sz @ [8, 6, 0, 0, 0]),
                (int (length (compressed zc sz)), ascii ''IDAT'', compressed zc sz),
                (0, ascii ''IEND'', [])]"
    unfolding bs_def by (simp add: read_png_image[OF e] header_payload_def)
  have 6: "length (be_bytes 4 sz @ be_bytes 4 sz @ [8, 6, 0, 0, 0]) = 13"
    by (simp add: length_be_bytes)
  show ?thesis
    apply (rule exI[of _ bs])
    using 2 3 4 5 6 apply (intro conjI)
    apply assumption+
    done
qed

theorem written_bytes_witness:
  "(0 :: int) < 1
     \<and> (\<exists>w'. create_png store (PyInt 1) ''icon.png'' empty_world = (Inr (), w')
          \<and> files w' ''icon.png'' =
              Some [137, 80, 78, 71, 13, 10, 26, 10,
                    0, 0, 0, 13, 73, 72, 68, 82, 0, 0, 0, 1, 0, 0, 0, 1, 8, 6, 0, 0, 0, 31, 21, 196, 137,
                    0, 0, 0, 16, 73, 68, 65, 84, 120, 1, 1, 5, 0, 250, 255, 0, 124, 58, 237, 255,
                    5, 124, 2, 163, 149, 58, 39, 128,
                    0, 0, 0, 0, 73, 69, 78, 68, 174, 66, 96, 130]
          \<and> writes (trace w') = [(''icon.png'', png_image store 1)])"
proof -
  define w' where "w' = \<lparr>files = [''icon.png'' \<mapsto> png_image store 1], unwritable = {},
      trace = [FileOpen ''icon.png'', FileWrite ''icon.png'' (png_image store 1),
               Print ''Created icon.png (1x1)'']\<rparr>"
  have p: "(0 :: int) < 1" by simp
  have c: "create_png store (PyInt 1) ''icon.png'' empty_world = (Inr (), w')"
    by (simp add: create_png_store_1 w'_def)
  from written_bytes [OF p c] obtain bs where
    f: "files w' ''icon.png'' = Some bs"
    and t: "writes (trace w') = writes (trace empty_world) @ [(''icon.png'', bs)]"
    and b: "bs = [0x89, 0x50, 0x4E, 0x47, 0x0D, 0x0A, 0x1A, 0x0A]
            @ chunk ''IHDR'' (be_bytes 4 1 @ be_bytes 4 1 @ [8, 6, 0, 0, 0])
            @ chunk ''IDAT'' (compressed store 1)
            @ chunk ''IEND'' []" by blast
  from b have i: "bs = png_image store 1"
    by (simp add: png_image_def header_payload_def signature_def)
  from f i have "files w' ''icon.png'' = Some [137, 80, 78, 71, 13, 10, 26, 10,
                    0, 0, 0, 13, 73, 72, 68, 82, 0, 0, 0, 1, 0, 0, 0, 1, 8, 6, 0, 0, 0, 31, 21, 196, 137,
                    0, 0, 0, 16, 73, 68, 65, 84, 120, 1, 1, 5, 0, 250, 255, 0, 124, 58, 237, 255,
                    5, 124, 2, 163, 149, 58, 39, 128,
                    0, 0, 0, 0, 73, 69, 78, 68, 174, 66, 96, 130]"
    by (simp add: png_image_1x1)
  moreover from t i have "writes (trace w') = [(''icon.png'', png_image store 1)]"
    by (simp add: empty_world_def)
  ultimately have "create_png store (PyInt 1) ''icon.png'' empty_world = (Inr (), w')
          \<and> files w' ''icon.png'' =
              Some [137, 80, 78, 71, 13, 10, 26, 10,
                    0, 0, 0, 13, 73, 72, 68, 82, 0, 0, 0, 1, 0, 0, 0, 1, 8, 6, 0, 0, 0, 31, 21, 196, 137,
                    0, 0, 0, 16, 73, 68, 65, 84, 120, 1, 1, 5, 0, 250, 255, 0, 124, 58, 237, 255,
                    5, 124, 2, 163, 149, 58, 39, 128,
                    0, 0, 0, 0, 73, 69, 78, 68, 174, 66, 96, 130]
          \<and> writes (trace w') = [(''icon.png'', png_image store 1)]"
    using c by (intro conjI)
  then show ?thesis using p by blast
qed

text \<open>
  C4: for every positive size S and every chunk of a file \<^verbatim>\<open>create_png\<close> has written,
  the 4 bytes that end the chunk hold the CRC-32 of the chunk's tag followed by its
  payload: a reader that cuts the file into chunks finds IHDR, IDAT and IEND, and
  recomputing the checksum of each gives the stored value.
\<close>

theorem checksums_valid:
  assumes "0 < sz" "create_png zc (PyInt sz) filename w = (Inr (), w')"
  shows "\<exists>bs cs. files w' filename = Some bs \<and> read_png bs = Some cs
     \<and> map ck_type cs = [ascii ''IHDR'', ascii ''IDAT'', ascii ''IEND'']
     \<and> (\<forall>c \<in> set cs. ck_crc c = crc32 (ck_type c @ ck_data c))"
proof -
  from create_png_returns[OF assms(2)]
  have e: "encodable zc sz"
    and w': "w' = w\<lparr>files := (files w)(filename \<mapsto> png_image zc sz),
                    trace := trace w @ [FileOpen filename, FileWrite filename (png_image zc sz),
                                        Print (created_msg filename sz)]\<rparr>"
    by simp_all
  have "files w' filename = Some (png_image zc sz)" by (simp add: w')
  then show ?thesis by (simp add: read_png_image[OF e])
qed

theorem checksums_valid_witness:
  "(0 :: int) < 1
     \<and> (\<exists>w'. create_png store (PyInt 1) ''icon.png'' empty_world = (Inr (), w')
          \<and> (\<exists>bs cs. files w' ''icon.png'' = Some bs \<and> read_png bs = Some cs
                \<and> map ck_crc cs = [0x1f15c489, 0x953a2780, 0xAE426082]
                \<and> list_all crc_ok cs))"
proof -
  have p: "(0 :: int) < 1" by simp
  note c = create_png_store_1
  from checksums_valid [OF p c] obtain bs cs where
    f: "files \<lparr>files = [''icon.png'' \<mapsto> png_image store 1], unwritable = {},
               trace = [FileOpen ''icon.png'', FileWrite ''icon.png'' (png_image store 1), Print ''Created icon.png (1x1)'']\<rparr> ''icon.png'' = Some bs"
    and r: "read_png bs = Some cs"
    and k: "\<forall>c \<in> set cs. ck_crc c = crc32 (ck_type c @ ck_data c)"
    by blast
  from f have bs: "bs = png_image store 1" by simp
  have e: "encodable store 1" by (simp add: encodable_store)
  have "map ck_crc cs = [0x1f15c489, 0x953a2780, 0xAE426082]"
    using r unfolding bs read_png_image[OF e]
    by (auto simp add: header_payload_def be_bytes_4 ascii_def crc32_def crc_update_unfold crc_shift_def
        compressed_def store_def stored_blocks.simps le16_def adler32_def raw_data_eq pixel_def)
  moreover from k have "list_all crc_ok cs" by (simp add: list_all_iff crc_ok_def)
  ultimately show ?thesis using c f r by auto
qed

text \<open>
  C5, as stated: every size that is at most 0 or not an integer makes \<^verbatim>\<open>create_png\<close>
  fail and write no file. Size 0 is accepted: the call returns normally and the file is
  there.
\<close>

theorem size_zero_accepted:
  "create_png store (PyInt 0) ''icon.png'' empty_world =
     (Inr (), \<lparr>files = [''icon.png'' \<mapsto> png_image store 0], unwritable = {},
               trace = [FileOpen ''icon.png'', FileWrite ''icon.png'' (png_image store 0), Print ''Created icon.png (0x0)'']\<rparr>)"
  by (simp add: create_png_eq encodable_store raster_fits_small empty_world_def created_msg_def
      str_int_def str_nat.simps)

text \<open>
  C5, amended: for every negative integer size \<^verbatim>\<open>create_png\<close> raises \<^verbatim>\<open>struct.error\<close>,
  and for every size that is not an integer it raises \<^verbatim>\<open>TypeError\<close>; in both cases
  the state is left as it was, so no file is written.
\<close>

theorem invalid_size_raises:
  "(sz < 0 \<longrightarrow> create_png zc (PyInt sz) filename w = (Inl StructError, w))
     \<and> create_png zc PyNonInt filename w = (Inl TypeError, w)"
  by (simp add: create_png_eq not_encodable_negative raster_fits_nonpos create_png_non_int)

theorem invalid_size_raises_witness:
  "(-5 :: int) < 0
     \<and> create_png store (PyInt (-5)) ''icon.png'' empty_world = (Inl StructError, empty_world)
     \<and> create_png store PyNonInt ''icon.png'' empty_world = (Inl TypeError, empty_world)"
  using invalid_size_raises [of "-5" store "''icon.png''" empty_world] by simp

text \<open>
  C6: two calls of \<^verbatim>\<open>create_png\<close> with the same positive size that both return, under
  any two compressors that one decompressor inverts, and whatever the file names and the
  states they start from, write files that decode to the same image, the S by S raster
  of the colour (124, 58, 237, 255), pixel for pixel, whether or not the compressed bytes
  coincide; the two files are the same bytes exactly when the two compressed streams
  are, so with one compressor the outputs are byte-identical: the bytes are a function of
  the size.
\<close>

theorem encode_deterministic:
  assumes "zlib_lossless zc1 zd" "zlib_lossless zc2 zd" "0 < sz"
    and "create_png zc1 (PyInt sz) f1 w1 = (Inr (), w1')"
    and "create_png zc2 (PyInt sz) f2 w2 = (Inr (), w2')"
  shows "\<exists>b1 b2 im. files w1' f1 = Some b1 \<and> files w2' f2 = Some b2
     \<and> decode_png zd b1 = Some im \<and> decode_png zd b2 = Some im
     \<and> im = \<lparr>img_width = sz, img_height = sz,
              img_rows = replicate (nat sz) (replicate (nat sz) (124, 58, 237, 255))\<rparr>
     \<and> (b1 = b2 \<longleftrightarrow> compressed zc1 sz = compressed zc2 sz)
     \<and> (zc1 = zc2 \<longrightarrow> b1 = b2)
     \<and> (int (length (compressed zc1 sz)) \<le> png_limit \<longrightarrow> decode_png_strict zd b1 = Some im)
     \<and> (int (length (compressed zc2 sz)) \<le> png_limit \<longrightarrow> decode_png_strict zd b2 = Some im)"
proof -
  define im where "im = \<lparr>img_width = sz, img_height = sz,
              img_rows = replicate (nat sz) (replicate (nat sz) (124, 58, 237, 255))\<rparr>"
  from create_png_returns[OF assms(4)]
  have e1: "encodable zc1 sz"
    and 1: "w1' = w1\<lparr>files := (files w1)(f1 \<mapsto> png_image zc1 sz),
                    trace := trace w1 @ [FileOpen f1, FileWrite f1 (png_image zc1 sz),
                                        Print (created_msg f1 sz)]\<rparr>"
    by simp_all
  from create_png_returns[OF assms(5)]
  have e2: "encodable zc2 sz"
    and 2: "w2' = w2\<lparr>files := (files w2)(f2 \<mapsto> png_image zc2 sz),
                    trace := trace w2 @ [FileOpen f2, FileWrite f2 (png_image zc2 sz),
                                        Print (created_msg f2 sz)]\<rparr>"
    by simp_all
  have f1: "files w1' f1 = Some (png_image zc1 sz)" by (simp add: 1)
  have f2: "files w2' f2 = Some (png_image zc2 sz)" by (simp add: 2)
  have d1: "decode_png zd (png_image zc1 sz) = Some im"
    unfolding im_def by (rule decode_png_image[OF assms(1) assms(3) e1])
  have d2: "decode_png zd (png_image zc2 sz) = Some im"
    unfolding im_def by (rule decode_png_image[OF assms(2) assms(3) e2])
  have eq: "png_image zc1 sz = png_image zc2 sz \<longleftrightarrow> compressed zc1 sz = compressed zc2 sz"
  proof
    assume "png_image zc1 sz = png_image zc2 sz"
    then have "read_png (png_image zc1 sz) = read_png (png_image zc2 sz)" by simp
    then show "compressed zc1 sz = compressed zc2 sz"
      by (simp add: read_png_image[OF e1] read_png_image[OF e2])
  next
    assume "compressed zc1 sz = compressed zc2 sz"
    then show "png_image zc1 sz = png_image zc2 sz" by (simp add: png_image_def)
  qed
  have same: "zc1 = zc2 \<longrightarrow> png_image zc1 sz = png_image zc2 sz" by auto
  have s1: "int (length (compressed zc1 sz)) \<le> png_limit \<longrightarrow>
      decode_png_strict zd (png_image zc1 sz) = Some im"
    unfolding im_def using decode_png_strict_image[OF assms(1) assms(3) e1] by blast
  have s2: "int (length (compressed zc2 sz)) \<le> png_limit \<longrightarrow>
      decode_png_strict zd (png_image zc2 sz) = Some im"
    unfolding im_def using decode_png_strict_image[OF assms(2) assms(3) e2] by blast
  have i: "im = \<lparr>img_width = sz, img_height = sz,
              img_rows = replicate (nat sz) (replicate (nat sz) (124, 58, 237, 255))\<rparr>"
    by (rule im_def)
  show ?thesis
    apply (rule exI[of _ "png_image zc1 sz"], rule exI[of _ "png_image zc2 sz"], rule exI[of _ im])
    using f1 f2 d1 d2 i eq same s1 s2 apply (intro conjI)
    apply assumption+
    done
qed

theorem encode_deterministic_witness:
  "zlib_lossless store unstore \<and> zlib_lossless store_max unstore \<and> (0 :: int) < 1
     \<and> (\<exists>w1' w2' b1 b2.
           create_png store (PyInt 1) ''icon.png'' empty_world = (Inr (), w1')
         \<and> create_png store_max (PyInt 1) ''icon.png'' w1' = (Inr (), w2')
         \<and> files w1' ''icon.png'' = Some b1 \<and> files w2' ''icon.png'' = Some b2
         \<and> b1 \<noteq> b2
         \<and> decode_png unstore b1 =
              Some \<lparr>img_width = 1, img_height = 1, img_rows = [ [(124, 58, 237, 255)] ]\<rparr>
         \<and> decode_png unstore b2 =
              Some \<lparr>img_width = 1, img_height = 1, img_rows = [ [(124, 58, 237, 255)] ]\<rparr>
         \<and> decode_png_strict unstore b1 =
              Some \<lparr>img_width = 1, img_height = 1, img_rows = [ [(124, 58, 237, 255)] ]\<rparr>
         \<and> decode_png_strict unstore b2 =
              Some \<lparr>img_width = 1, img_height = 1, img_rows = [ [(124, 58, 237, 255)] ]\<rparr>)"
proof -
  define w1' where "w1' = \<lparr>files = [''icon.png'' \<mapsto> png_image store 1], unwritable = {},
      trace = [FileOpen ''icon.png'', FileWrite ''icon.png'' (png_image store 1),
               Print ''Created icon.png (1x1)'']\<rparr>"
  define w2' where "w2' = w1'\<lparr>files := (files w1')(''icon.png'' \<mapsto> png_image store_max 1),
      trace := trace w1' @ [FileOpen ''icon.png'', FileWrite ''icon.png'' (png_image store_max 1),
                            Print ''Created icon.png (1x1)'']\<rparr>"
  have l1: "zlib_lossless store unstore" by (rule store_lossless)
  have l2: "zlib_lossless store_max unstore" by (rule store_max_lossless)
  have p: "(0 :: int) < 1" by simp
  have a: "create_png store (PyInt 1) ''icon.png'' empty_world = (Inr (), w1')"
    by (simp add: create_png_store_1 w1'_def)
  have b: "create_png store_max (PyInt 1) ''icon.png'' w1' = (Inr (), w2')"
    by (simp add: create_png_eq encodable_store_max w1'_def w2'_def created_msg_def str_int_def
        str_nat.simps)
  have c1: "compressed store 1 = [120, 1, 1, 5, 0, 250, 255, 0, 124, 58, 237, 255, 5, 124, 2, 163]"
    by (simp add: store_def stored_blocks.simps le16_def adler32_def be_bytes_4 raw_data_eq
        pixel_def compressed_def)
  have c2: "compressed store_max 1 =
      [120, 218, 1, 5, 0, 250, 255, 0, 124, 58, 237, 255, 5, 124, 2, 163]"
    by (simp add: store_max_def stored_blocks.simps le16_def adler32_def be_bytes_4 raw_data_eq
        pixel_def compressed_def)
  from encode_deterministic [OF l1 l2 p a b] obtain b1 b2 im where
    f1: "files w1' ''icon.png'' = Some b1" and f2: "files w2' ''icon.png'' = Some b2"
    and d1: "decode_png unstore b1 = Some im" and d2: "decode_png unstore b2 = Some im"
    and i: "im = \<lparr>img_width = 1, img_height = 1,
              img_rows = replicate (nat 1) (replicate (nat 1) (124, 58, 237, 255))\<rparr>"
    and eq: "b1 = b2 \<longleftrightarrow> compressed store 1 = compressed store_max 1"
    and s1: "int (length (compressed store 1)) \<le> png_limit \<longrightarrow> decode_png_strict unstore b1 = Some im"
    and s2: "int (length (compressed store_max 1)) \<le> png_limit \<longrightarrow> decode_png_strict unstore b2 = Some im"
    by blast
  from eq have ne: "b1 \<noteq> b2" by (simp add: c1 c2)
  from i have i': "im = \<lparr>img_width = 1, img_height = 1, img_rows = [ [(124, 58, 237, 255)] ]\<rparr>"
    by simp
  from s1 have t1: "decode_png_strict unstore b1 = Some im"
    by (simp add: c1 png_limit_def)
  from s2 have t2: "decode_png_strict unstore b2 = Some im"
    by (simp add: c2 png_limit_def)
  have "create_png store (PyInt 1) ''icon.png'' empty_world = (Inr (), w1')
         \<and> create_png store_max (PyInt 1) ''icon.png'' w1' = (Inr (), w2')
         \<and> files w1' ''icon.png'' = Some b1 \<and> files w2' ''icon.png'' = Some b2
         \<and> b1 \<noteq> b2
         \<and> decode_png unstore b1 =
              Some \<lparr>img_width = 1, img_height = 1, img_rows = [ [(124, 58, 237, 255)] ]\<rparr>
         \<and> decode_png unstore b2 =
              Some \<lparr>img_width = 1, img_height = 1, img_rows = [ [(124, 58, 237, 255)] ]\<rparr>
         \<and> decode_png_strict unstore b1 =
              Some \<lparr>img_width = 1, img_height = 1, img_rows = [ [(124, 58, 237, 255)] ]\<rparr>
         \<and> decode_png_strict unstore b2 =
              Some \<lparr>img_width = 1, img_height = 1, img_rows = [ [(124, 58, 237, 255)] ]\<rparr>"
    using a b f1 f2 ne d1[unfolded i'] d2[unfolded i'] t1[unfolded i'] t2[unfolded i']
    by (intro conjI)
  then have "\<exists>w1' w2' b1 b2.
           create_png store (PyInt 1) ''icon.png'' empty_world = (Inr (), w1')
         \<and> create_png store_max (PyInt 1) ''icon.png'' w1' = (Inr (), w2')
         \<and> files w1' ''icon.png'' = Some b1 \<and> files w2' ''icon.png'' = Some b2
         \<and> b1 \<noteq> b2
         \<and> decode_png unstore b1 =
              Some \<lparr>img_width = 1, img_height = 1, img_rows = [ [(124, 58, 237, 255)] ]\<rparr>
         \<and> decode_png unstore b2 =
              Some \<lparr>img_width = 1, img_height = 1, img_rows = [ [(124, 58, 237, 255)] ]\<rparr>
         \<and> decode_png_strict unstore b1 =
              Some \<lparr>img_width = 1, img_height = 1, img_rows = [ [(124, 58, 237, 255)] ]\<rparr>
         \<and> decode_png_strict unstore b2 =
              Some \<lparr>img_width = 1, img_height = 1, img_rows = [ [(124, 58, 237, 255)] ]\<rparr>"
    by - (rule exI[of _ w1'], rule exI[of _ w2'], rule exI[of _ b1], rule exI[of _ b2], assumption)
  with l1 l2 p show ?thesis by (intro conjI)
qed

text \<open>
  C7, as stated: the encoding operation changes no external state, creates no file and
  prints nothing. \<^verbatim>\<open>create_png\<close> is the only encoding operation of the script, and a
  call of it creates the file and prints a line.
\<close>

theorem create_png_has_effects:
  "files (snd (create_png store (PyInt 1) ''icon.png'' empty_world)) ''icon.png'' \<noteq>
     files empty_world ''icon.png''
     \<and> stdout (trace (snd (create_png store (PyInt 1) ''icon.png'' empty_world))) =
         [''Created icon.png (1x1)'']
     \<and> stdout (trace empty_world) = []"
  by (simp add: create_png_store_1) (simp add: empty_world_def)

text \<open>
  C7, amended: the byte sequence is a function of the size alone, depending neither on
  the file name nor on the state before the call, but the operation is not free of
  effects: a call of \<^verbatim>\<open>create_png\<close> that returns has put that byte sequence in the file
  named by its argument and has printed one completion line.
\<close>

theorem create_png_effects:
  assumes "create_png zc a filename w = (Inr u, w')"
  shows "\<exists>sz bs. a = PyInt sz \<and> png_bytes zc sz = Inr bs
     \<and> files w' filename = Some bs
     \<and> stdout (trace w') = stdout (trace w) @ [created_msg filename sz]"
proof -
  from create_png_returns[OF assms] obtain sz where
    a: "a = PyInt sz" and e: "encodable zc sz"
    and w': "w' = w\<lparr>files := (files w)(filename \<mapsto> png_image zc sz),
            trace := trace w @ [FileOpen filename, FileWrite filename (png_image zc sz),
                                Print (created_msg filename sz)]\<rparr>"
    by blast
  have b: "png_bytes zc sz = Inr (png_image zc sz)" using e by (simp add: png_bytes_eq)
  have f: "files w' filename = Some (png_image zc sz)" by (simp add: w')
  have s: "stdout (trace w') = stdout (trace w) @ [created_msg filename sz]"
    by (simp add: w' stdout_append)
  show ?thesis
    apply (rule exI[of _ sz], rule exI[of _ "png_image zc sz"])
    using a b f s apply (intro conjI)
    apply assumption+
    done
qed

theorem create_png_effects_witness:
  "(\<exists>w'. create_png store (PyInt 1) ''icon.png'' empty_world = (Inr (), w')
      \<and> (\<exists>bs. png_bytes store 1 = Inr bs \<and> files w' ''icon.png'' = Some bs
            \<and> stdout (trace w') = stdout (trace empty_world) @ [''Created icon.png (1x1)'']))"
proof -
  define w' where "w' = \<lparr>files = [''icon.png'' \<mapsto> png_image store 1], unwritable = {},
      trace = [FileOpen ''icon.png'', FileWrite ''icon.png'' (png_image store 1),
               Print ''Created icon.png (1x1)'']\<rparr>"
  have c: "create_png store (PyInt 1) ''icon.png'' empty_world = (Inr (), w')"
    by (simp add: create_png_store_1 w'_def)
  have m: "created_msg ''icon.png'' 1 = ''Created icon.png (1x1)''"
    by (simp add: created_msg_def str_int_def str_nat.simps)
  from create_png_effects [OF c] obtain sz bs where
    a: "PyInt 1 = PyInt sz" and b: "png_bytes store sz = Inr bs"
    and f: "files w' ''icon.png'' = Some bs"
    and s: "stdout (trace w') = stdout (trace empty_world) @ [created_msg ''icon.png'' sz]"
    by blast
  from a have sz: "sz = 1" by simp
  have "create_png store (PyInt 1) ''icon.png'' empty_world = (Inr (), w')
      \<and> (\<exists>bs. png_bytes store 1 = Inr bs \<and> files w' ''icon.png'' = Some bs
            \<and> stdout (trace w') = stdout (trace empty_world) @ [''Created icon.png (1x1)''])"
    using c b f s unfolding sz m by blast
  then show ?thesis by (rule exI[of _ w'])
qed

text \<open>
  C8: a run of the script in which the four files can be opened (and the four compressed
  streams fit the 32-bit length field) opens and writes exactly four files, in the order of
  the list: size 32 to \<^verbatim>\<open>32x32.png\<close>, 128 to \<^verbatim>\<open>128x128.png\<close>, 256 to \<^verbatim>\<open>128x128@2x.png\<close>
  and 512 to \<^verbatim>\<open>icon.png\<close>, each followed by its completion line, and then prints the
  final line; nothing else is written or printed. Each file decodes to a square image
  of its size in the colour (124, 58, 237, 255).
\<close>

theorem script_run:
  assumes "''32x32.png'' \<notin> unwritable w" "''128x128.png'' \<notin> unwritable w"
    "''128x128@2x.png'' \<notin> unwritable w" "''icon.png'' \<notin> unwritable w"
    and "length (compressed zc 32) < 4294967296" "length (compressed zc 128) < 4294967296"
    "length (compressed zc 256) < 4294967296" "length (compressed zc 512) < 4294967296"
  shows "script zc w =
     (Inr (),
      w\<lparr>files := (files w)(''32x32.png'' \<mapsto> png_image zc 32,
                            ''128x128.png'' \<mapsto> png_image zc 128,
                            ''128x128@2x.png'' \<mapsto> png_image zc 256,
                            ''icon.png'' \<mapsto> png_image zc 512),
        trace := trace w @
          [FileOpen ''32x32.png'', FileWrite ''32x32.png'' (png_image zc 32),
           Print ''Created 32x32.png (32x32)'',
           FileOpen ''128x128.png'', FileWrite ''128x128.png'' (png_image zc 128),
           Print ''Created 128x128.png (128x128)'',
           FileOpen ''128x128@2x.png'', FileWrite ''128x128@2x.png'' (png_image zc 256),
           Print ''Created 128x128@2x.png (256x256)'',
           FileOpen ''icon.png'', FileWrite ''icon.png'' (png_image zc 512),
           Print ''Created icon.png (512x512)'',
           Print ''Icons created successfully!'']\<rparr>)
     \<and> (\<forall>zd. zlib_lossless zc zd \<longrightarrow>
           list_all (\<lambda>(s, n). decode_png zd (png_image zc s) =
               Some \<lparr>img_width = s, img_height = s,
                     img_rows = replicate (nat s) (replicate (nat s) (124, 58, 237, 255))\<rparr>) sizes)"
proof -
  have e: "encodable zc 32" "encodable zc 128" "encodable zc 256" "encodable zc 512"
    using assms(5-8) by (simp_all add: encodable_def raster_fits_small)
  have "script zc w =
     (Inr (),
      w\<lparr>files := (files w)(''32x32.png'' \<mapsto> png_image zc 32,
                            ''128x128.png'' \<mapsto> png_image zc 128,
                            ''128x128@2x.png'' \<mapsto> png_image zc 256,
                            ''icon.png'' \<mapsto> png_image zc 512),
        trace := trace w @
          [FileOpen ''32x32.png'', FileWrite ''32x32.png'' (png_image zc 32),
           Print ''Created 32x32.png (32x32)'',
           FileOpen ''128x128.png'', FileWrite ''128x128.png'' (png_image zc 128),
           Print ''Created 128x128.png (128x128)'',
           FileOpen ''128x128@2x.png'', FileWrite ''128x128@2x.png'' (png_image zc 256),
           Print ''Created 128x128@2x.png (256x256)'',
           FileOpen ''icon.png'', FileWrite ''icon.png'' (png_image zc 512),
           Print ''Created icon.png (512x512)'',
           Print ''Icons created successfully!'']\<rparr>)"
    using assms(1-4)
    by (simp add: script_def sizes_def create_png_eq e created_msgs print_line_def)
  moreover have "list_all (\<lambda>(s, n). decode_png zd (png_image zc s) =
               Some \<lparr>img_width = s, img_height = s,
                     img_rows = replicate (nat s) (replicate (nat s) (124, 58, 237, 255))\<rparr>) sizes"
    if "zlib_lossless zc zd" for zd
    using decode_png_image[OF that _ e(1)] decode_png_image[OF that _ e(2)]
      decode_png_image[OF that _ e(3)] decode_png_image[OF that _ e(4)]
    by (simp add: sizes_def)
  ultimately show ?thesis by blast
qed

theorem script_run_witness:
  "''32x32.png'' \<notin> unwritable empty_world \<and> ''128x128.png'' \<notin> unwritable empty_world
     \<and> ''128x128@2x.png'' \<notin> unwritable empty_world \<and> ''icon.png'' \<notin> unwritable empty_world
     \<and> length (compressed store 32) < 4294967296 \<and> length (compressed store 128) < 4294967296
     \<and> length (compressed store 256) < 4294967296 \<and> length (compressed store 512) < 4294967296
     \<and> fst (script store empty_world) = Inr ()
     \<and> map fst (writes (trace (snd (script store empty_world)))) =
          [''32x32.png'', ''128x128.png'', ''128x128@2x.png'', ''icon.png'']
     \<and> stdout (trace (snd (script store empty_world))) =
          [''Created 32x32.png (32x32)'', ''Created 128x128.png (128x128)'',
           ''Created 128x128@2x.png (256x256)'', ''Created icon.png (512x512)'',
           ''Icons created successfully!'']
     \<and> dom (files (snd (script store empty_world))) =
          {''32x32.png'', ''128x128.png'', ''128x128@2x.png'', ''icon.png''}"
proof -
  have u: "''32x32.png'' \<notin> unwritable empty_world" "''128x128.png'' \<notin> unwritable empty_world"
    "''128x128@2x.png'' \<notin> unwritable empty_world" "''icon.png'' \<notin> unwritable empty_world"
    by (simp_all add: empty_world_def)
  have l: "length (compressed store 32) < 4294967296" "length (compressed store 128) < 4294967296"
    "length (compressed store 256) < 4294967296" "length (compressed store 512) < 4294967296"
    using encodable_store[of 32] encodable_store[of 128] encodable_store[of 256]
      encodable_store[of 512]
    by (simp_all add: encodable_def)
  note t = script_run [where zc = store and w = empty_world, OF u l, THEN conjunct1]
  show ?thesis
    using u l by (simp add: t) (auto simp add: empty_world_def)
qed

text \<open>
  C9: for every negative size \<^verbatim>\<open>create_png\<close> raises \<^verbatim>\<open>struct.error\<close> when it packs the
  header payload, which is before it opens the file: the state it returns is the state it
  was given (no open in its trace), so no file is created or modified.
\<close>

theorem negative_size_raises:
  "sz < 0 \<Longrightarrow>
     ihdr_data sz = Inl StructError \<and> create_png zc (PyInt sz) filename w = (Inl StructError, w)"
  by (simp add: ihdr_data_error create_png_eq not_encodable_negative raster_fits_nonpos)

theorem negative_size_raises_witness:
  "(-1 :: int) < 0 \<and> ihdr_data (-1) = Inl StructError
     \<and> create_png store (PyInt (-1)) ''icon.png'' empty_world = (Inl StructError, empty_world)"
  using negative_size_raises [of "-1" store "''icon.png''" empty_world] by simp

text \<open>
  C10: for size 0, given a file name that can be opened (and a compressor whose output
  for the empty string fits the 32-bit length field, as the 8 bytes of zlib do),
  \<^verbatim>\<open>create_png\<close> returns normally: the raw data are empty, and the file written is the
  signature and three chunks, the IHDR payload declaring width 0 and height 0 and the
  IDAT payload being the compression of the empty byte string.
\<close>

theorem size_zero_completes:
  assumes "filename \<notin> unwritable w" "length (zc [] 9) < 4294967296"
  shows "raw_data 0 = [] \<and> compressed zc 0 = zc [] 9
     \<and> create_png zc (PyInt 0) filename w =
         (Inr (),
          w\<lparr>files := (files w)(filename \<mapsto>
                signature @ chunk ''IHDR'' [0, 0, 0, 0, 0, 0, 0, 0, 8, 6, 0, 0, 0]
                  @ chunk ''IDAT'' (zc [] 9) @ chunk ''IEND'' []),
            trace := trace w @
              [FileOpen filename, FileWrite filename
                 (signature @ chunk ''IHDR'' [0, 0, 0, 0, 0, 0, 0, 0, 8, 6, 0, 0, 0]
                    @ chunk ''IDAT'' (zc [] 9) @ chunk ''IEND'' []),
               Print (''Created '' @ filename @ '' (0x0)'')]\<rparr>)
     \<and> read_header [0, 0, 0, 0, 0, 0, 0, 0, 8, 6, 0, 0, 0] =
         Some \<lparr>hd_width = 0, hd_height = 0, hd_bit_depth = 8, hd_color_type = 6,
               hd_compression = 0, hd_filter = 0, hd_interlace = 0\<rparr>"
proof -
  have r: "raw_data 0 = []" by (simp add: raw_data_eq)
  have c: "compressed zc 0 = zc [] 9" by (simp add: compressed_def r)
  have e: "encodable zc 0" using assms(2) by (simp add: encodable_def c raster_fits_nonpos)
  have h: "header_payload 0 = [0, 0, 0, 0, 0, 0, 0, 0, 8, 6, 0, 0, 0]"
    by (simp add: header_payload_def be_bytes_4)
  have m: "created_msg filename 0 = ''Created '' @ filename @ '' (0x0)''"
    by (simp add: created_msg_def str_int_def str_nat.simps)
  have "read_header (header_payload 0) =
         Some \<lparr>hd_width = 0, hd_height = 0, hd_bit_depth = 8, hd_color_type = 6,
               hd_compression = 0, hd_filter = 0, hd_interlace = 0\<rparr>"
    by (rule read_header_payload) simp_all
  then show ?thesis
    using assms(1) by (simp add: r c create_png_eq e png_image_def h m)
qed

theorem size_zero_completes_witness:
  "''icon.png'' \<notin> unwritable empty_world \<and> length (store [] 9) < 4294967296
     \<and> create_png store (PyInt 0) ''icon.png'' empty_world =
         (Inr (),
          \<lparr>files = [''icon.png'' \<mapsto>
             [137, 80, 78, 71, 13, 10, 26, 10,
              0, 0, 0, 13, 73, 72, 68, 82, 0, 0, 0, 0, 0, 0, 0, 0, 8, 6, 0, 0, 0, 59, 139, 124, 18,
              0, 0, 0, 11, 73, 68, 65, 84, 120, 1, 1, 0, 0, 255, 255, 0, 0, 0, 1, 137, 214, 174, 95,
              0, 0, 0, 0, 73, 69, 78, 68, 174, 66, 96, 130]],
           unwritable = {},
           trace = [FileOpen ''icon.png'', FileWrite ''icon.png''
             [137, 80, 78, 71, 13, 10, 26, 10,
              0, 0, 0, 13, 73, 72, 68, 82, 0, 0, 0, 0, 0, 0, 0, 0, 8, 6, 0, 0, 0, 59, 139, 124, 18,
              0, 0, 0, 11, 73, 68, 65, 84, 120, 1, 1, 0, 0, 255, 255, 0, 0, 0, 1, 137, 214, 174, 95,
              0, 0, 0, 0, 73, 69, 78, 68, 174, 66, 96, 130],
             Print ''Created icon.png (0x0)'']\<rparr>)"
proof -
  have u: "''icon.png'' \<notin> unwritable empty_world" by (simp add: empty_world_def)
  have l: "length (store [] 9) < 4294967296"
    using length_store[of "[]" 9] by simp
  have i: "signature @ chunk ''IHDR'' [0, 0, 0, 0, 0, 0, 0, 0, 8, 6, 0, 0, 0]
                  @ chunk ''IDAT'' (store [] 9) @ chunk ''IEND'' [] = png_image store 0"
    by (simp add: png_image_def header_payload_def be_bytes_4 compressed_def raw_data_eq)
  from size_zero_completes [where zc = store and filename = "''icon.png''" and w = empty_world, OF u l]
  have "create_png store (PyInt 0) ''icon.png'' empty_world =
         (Inr (),
          empty_world\<lparr>files := (files empty_world)(''icon.png'' \<mapsto> png_image store 0),
            trace := trace empty_world @
              [FileOpen ''icon.png'', FileWrite ''icon.png'' (png_image store 0),
               Print (''Created '' @ ''icon.png'' @ '' (0x0)'')]\<rparr>)"
    unfolding i by (rule conjunct1[OF conjunct2[OF conjunct2]])
  then show ?thesis using u l by (simp add: png_image_0x0 empty_world_def)
qed

end
